theory Spec2Isabelle
  imports Complex_Main "HOL-Library.Multiset"
begin

section \<open>Pagination of travel destinations (display_travel_data)\<close>

text \<open>
  The pydantic model \<^verbatim>\<open>TravelDestination\<close> of chatgpt_parser.py: six required fields,
  strings and integers.
\<close>

record TravelDestination =
  location :: string
  price :: int
  start_date :: string
  end_date :: string
  travel_time :: string
  stay_cost :: int

text \<open>
  Python's \<^verbatim>\<open>xs[a:b]\<close> with step 1: a negative bound counts from the end, and both
  bounds are then clamped into \<^verbatim>\<open>[0, len(xs)]\<close>; an empty range gives the empty list.
\<close>

definition slice_bound :: "int \<Rightarrow> int \<Rightarrow> int" where
  "slice_bound n i = (if i < 0 then max 0 (n + i) else min i n)"

definition py_slice :: "'a list \<Rightarrow> int \<Rightarrow> int \<Rightarrow> 'a list" where
  "py_slice xs a b =
     (let n = int (length xs); lo = slice_bound n a; hi = slice_bound n b
      in take (nat (hi - lo)) (drop (nat lo) xs))"

text \<open>
  The pagination arithmetic of display_travel_data, with the local variable
  \<^verbatim>\<open>page_size\<close> as an argument; the source binds it to 5. The division is Python's
  floor division \<^verbatim>\<open>//\<close>, which is \<open>div\<close> on \<open>int\<close>.
\<close>

definition page_size :: int where
  "page_size = 5"

definition num_pages_of :: "int \<Rightarrow> int \<Rightarrow> int" where
  "num_pages_of total_destinations ps = (total_destinations + ps - 1) div ps"

definition start_idx_of :: "int \<Rightarrow> int \<Rightarrow> int" where
  "start_idx_of page_number ps = (page_number - 1) * ps"

definition end_idx_of :: "int \<Rightarrow> int \<Rightarrow> int \<Rightarrow> int" where
  "end_idx_of start_idx ps total_destinations = min (start_idx + ps) total_destinations"

definition page_slice :: "'a list \<Rightarrow> int \<Rightarrow> int \<Rightarrow> 'a list" where
  "page_slice travel_data ps page_number =
     (let total_destinations = int (length travel_data);
          start_idx = start_idx_of page_number ps;
          end_idx = end_idx_of start_idx ps total_destinations
      in py_slice travel_data start_idx end_idx)"

text \<open>
  The Streamlit session store of daytrip-planner (initialize_session_state) and of
  budget-travel-agent; the fields of the second carry the suffix \<open>_bt\<close>.
\<close>

record session_state =
  from_location :: string
  page_number :: int
  selected_destination :: "string option"
  show_atlas_obscura_modal :: bool

record session_state_bt =
  from_location_bt :: string
  end_location_bt :: "string option"
  page_number_bt :: int
  search_button_clicked :: bool

text \<open>
  What one call of display_travel_data does on the page: the warning of the empty case,
  the tabs of one page (page number, start index, end index and the records of the slice
  \<^verbatim>\<open>travel_data[start_idx:end_idx]\<close>), the exception that \<^verbatim>\<open>st.number_input\<close> raises (no
  tabs are created), or, in budget-travel-agent, \<^verbatim>\<open>st.rerun()\<close>, which stops the script
  run before any slice is computed.
\<close>

datatype 'a display =
    NoDestinations
  | RerunRequested
  | WidgetRaised
  | Displayed int int int "'a list"

text \<open>The exceptions that occur in the modelled functions.\<close>

datatype py_exception =
    ValueError
  | FileNotFoundError
  | AttributeError
  | ValidationError
  | ApiException
  | StreamlitAPIException

text \<open>
  What the user did with the page box in this script run: nothing, or entered a number.
\<close>

datatype page_entry = Untouched | Entered int

text \<open>
  \<^verbatim>\<open>st.number_input(min_value, max_value, value, step=1)\<close> belongs to the UI framework
  Streamlit, which is not part of the repository. It is modelled as the library documents
  it: a \<^verbatim>\<open>value\<close> below \<^verbatim>\<open>min_value\<close> or above \<^verbatim>\<open>max_value\<close> raises StreamlitAPIException;
  otherwise the widget returns \<^verbatim>\<open>value\<close>, or the number the user entered, which the input
  box takes over only if it lies within the two bounds.
\<close>

definition number_input :: "int \<Rightarrow> int \<Rightarrow> int \<Rightarrow> page_entry \<Rightarrow> py_exception + int" where
  "number_input min_value max_value v entry =
     (if v < min_value \<or> max_value < v then Inl StreamlitAPIException
      else case entry of
             Untouched \<Rightarrow> Inr v
           | Entered k \<Rightarrow> if min_value \<le> k \<and> k \<le> max_value then Inr k else Inr v)"

text \<open>
  The part shared by both versions of display_travel_data, from the computation of the
  index range to the creation of the tabs of \<^verbatim>\<open>travel_data[start_idx:end_idx]\<close>. The
  rendering of each tab (and, in daytrip-planner, the Atlas Obscura modal) that follows
  touches neither the page number nor the slice and is left out.
\<close>

definition destination_tabs :: "'a list \<Rightarrow> int \<Rightarrow> 'a display" where
  "destination_tabs travel_data pn =
     (let total_destinations = int (length travel_data);
          start_idx = start_idx_of pn page_size;
          end_idx = end_idx_of start_idx page_size total_destinations
      in Displayed pn start_idx end_idx (py_slice travel_data start_idx end_idx))"

text \<open>
  display_travel_data of daytrip-planner/main.py (lines 440 to 481). The source has no
  clamp of its own: the stored page number goes to the widget as its \<^verbatim>\<open>value\<close>.
\<close>

definition display_travel_data ::
  "page_entry \<Rightarrow> 'a list \<Rightarrow> session_state \<Rightarrow> 'a display \<times> session_state" where
  "display_travel_data page_input travel_data st =
     (if travel_data = [] then (NoDestinations, st)
      else
        let total_destinations = int (length travel_data);
            num_pages = num_pages_of total_destinations page_size
        in if num_pages > 1 then
             (case number_input 1 num_pages (page_number st) page_input of
                Inl exn \<Rightarrow> (WidgetRaised, st)
              | Inr pn \<Rightarrow> (destination_tabs travel_data pn, st\<lparr>page_number := pn\<rparr>))
           else (destination_tabs travel_data 1, st\<lparr>page_number := 1\<rparr>))"

text \<open>
  display_travel_data of agents/budget-travel-agent/main.py (lines 322 to 358): the same
  arithmetic; a page number that differs from the stored one is stored and the script is
  rerun.
\<close>

definition display_travel_data_bt ::
  "page_entry \<Rightarrow> 'a list \<Rightarrow> session_state_bt \<Rightarrow> 'a display \<times> session_state_bt" where
  "display_travel_data_bt page_input travel_data st =
     (if travel_data = [] then (NoDestinations, st)
      else
        let total_destinations = int (length travel_data);
            num_pages = num_pages_of total_destinations page_size
        in if num_pages > 1 then
             (case number_input 1 num_pages (page_number_bt st) page_input of
                Inl exn \<Rightarrow> (WidgetRaised, st)
              | Inr pn \<Rightarrow>
                  if pn \<noteq> page_number_bt st
                  then (RerunRequested, st\<lparr>page_number_bt := pn\<rparr>)
                  else (destination_tabs travel_data pn, st))
           else (destination_tabs travel_data 1, st\<lparr>page_number_bt := 1\<rparr>))"

text \<open>Inputs of the worked examples of the pagination.\<close>

definition seven_records :: "nat list" where
  "seven_records = [10, 20, 30, 40, 50, 60, 70]"

definition stale_session :: session_state where
  "stale_session = \<lparr>from_location = ''Madrid'', page_number = 9,
     selected_destination = None, show_atlas_obscura_modal = False\<rparr>"

definition session_page1 :: session_state where
  "session_page1 = \<lparr>from_location = ''Madrid'', page_number = 1,
     selected_destination = None, show_atlas_obscura_modal = False\<rparr>"

definition session_bt_page2 :: session_state_bt where
  "session_bt_page2 = \<lparr>from_location_bt = ''Madrid'', end_location_bt = None,
     page_number_bt = 2, search_button_clicked = True\<rparr>"

definition session_bt_page3 :: session_state_bt where
  "session_bt_page3 = \<lparr>from_location_bt = ''Madrid'', end_location_bt = None,
     page_number_bt = 3, search_button_clicked = True\<rparr>"

section \<open>Strings and dictionaries\<close>

text \<open>
  Strings are lists of bytes. \<^verbatim>\<open>str.lower()\<close> is modelled on ASCII letters; every other
  byte is left as it is. \<^verbatim>\<open>k in s\<close> on strings is the substring test.
\<close>

definition lower_char :: "char \<Rightarrow> char" where
  "lower_char c =
     (case map_of (zip ''ABCDEFGHIJKLMNOPQRSTUVWXYZ'' ''abcdefghijklmnopqrstuvwxyz'') c of
        None \<Rightarrow> c
      | Some l \<Rightarrow> l)"

definition py_lower :: "string \<Rightarrow> string" where
  "py_lower s = map lower_char s"

fun starts_with :: "'a list \<Rightarrow> 'a list \<Rightarrow> bool" where
  "starts_with [] ys = True"
| "starts_with (x # xs) [] = False"
| "starts_with (x # xs) (y # ys) = (x = y \<and> starts_with xs ys)"

fun py_in :: "'a list \<Rightarrow> 'a list \<Rightarrow> bool" where
  "py_in k [] = (k = [])"
| "py_in k (c # cs) = (starts_with k (c # cs) \<or> py_in k cs)"

text \<open>\<^verbatim>\<open>d.get(key, default)\<close> on a dictionary with string keys.\<close>

definition py_get :: "(string \<rightharpoonup> 'v) \<Rightarrow> string \<Rightarrow> 'v \<Rightarrow> 'v" where
  "py_get d k dflt = (case d k of None \<Rightarrow> dflt | Some v \<Rightarrow> v)"

section \<open>Location validation (location_validator.py)\<close>

text \<open>
  What the request to the geocoding service gives: \<open>RequestFailed\<close> stands for every
  exception raised inside the \<^verbatim>\<open>try\<close> block before the test (network failure, a body
  that is not JSON), \<open>Results data\<close> for the decoded JSON list of result objects, whose
  \<^verbatim>\<open>addresstype\<close> and \<^verbatim>\<open>display_name\<close> are strings.
\<close>

datatype nominatim = RequestFailed | Results "(string \<rightharpoonup> string) list"

text \<open>
  validate_city of daytrip-planner/location_validator.py. Python parses the test as
  \<^verbatim>\<open>(data and A) or (B and C)\<close>. On an empty list the left operand is falsy without
  evaluating \<^verbatim>\<open>data[0]\<close>, and the right operand then evaluates \<^verbatim>\<open>data[0]\<close>, which raises
  IndexError; the handler prints the error and returns False.
\<close>

definition validate_city :: "string \<Rightarrow> nominatim \<Rightarrow> bool" where
  "validate_city city_name response =
     (case response of
        RequestFailed \<Rightarrow> False
      | Results data \<Rightarrow>
          if (case data of [] \<Rightarrow> False
              | d # _ \<Rightarrow> py_in ''city'' (py_lower (py_get d ''addresstype'' '''')))
          then True
          else (case data of
                  [] \<Rightarrow> False
                | d # _ \<Rightarrow>
                    if py_in ''town'' (py_lower (py_get d ''addresstype'' ''''))
                       \<and> py_lower (py_get d ''display_name'' '''') = py_lower city_name
                    then True else False))"

text \<open>
  validate_city of agents/budget-travel-agent/src/location_validator.py: the queried
  name has to occur in the display name of the first result; the display name is returned
  with the verdict.
\<close>

definition validate_city_bt :: "string \<Rightarrow> nominatim \<Rightarrow> bool \<times> string option" where
  "validate_city_bt city_name response =
     (case response of
        RequestFailed \<Rightarrow> (False, None)
      | Results data \<Rightarrow>
          (case data of
             [] \<Rightarrow> (False, None)
           | d # _ \<Rightarrow>
               if py_in (py_lower city_name) (py_lower (py_get d ''display_name'' ''''))
               then (True, d ''display_name'') else (False, None)))"

text \<open>Geocoding answers used in the worked examples.\<close>

definition madrid_city :: nominatim where
  "madrid_city = Results [[''addresstype'' \<mapsto> ''city'',
     ''display_name'' \<mapsto> ''Madrid, Comunidad de Madrid, Espana'']]"

definition madrid_town :: nominatim where
  "madrid_town = Results [[''addresstype'' \<mapsto> ''town'',
     ''display_name'' \<mapsto> ''Madrid, Comunidad de Madrid, Espana'']]"

definition madrid_town_exact :: nominatim where
  "madrid_town_exact = Results [[''addresstype'' \<mapsto> ''town'', ''display_name'' \<mapsto> ''MADRID'']]"

definition no_results :: nominatim where
  "no_results = Results []"

section \<open>Commit categorisation (generate_categorized_changelog)\<close>

text \<open>
  A commit is a dictionary with string values (\<^verbatim>\<open>message\<close>, \<^verbatim>\<open>description\<close>,
  \<^verbatim>\<open>committer_name\<close>). The six lists that the loop of generate_categorized_changelog
  fills are the fields of a record.
\<close>

type_synonym commit = "string \<rightharpoonup> string"

record categorized =
  feature_commits :: "commit list"
  bugfix_commits :: "commit list"
  docs_commits :: "commit list"
  refactor_commits :: "commit list"
  test_commits :: "commit list"
  other_commits :: "commit list"

definition no_commits :: categorized where
  "no_commits = \<lparr>feature_commits = [], bugfix_commits = [], docs_commits = [],
     refactor_commits = [], test_commits = [], other_commits = []\<rparr>"

text \<open>\<^verbatim>\<open>any(keyword in message for keyword in keywords)\<close>\<close>

definition any_keyword :: "string list \<Rightarrow> string \<Rightarrow> bool" where
  "any_keyword keywords message = list_ex (\<lambda>keyword. py_in keyword message) keywords"

text \<open>The body of the loop: the \<^verbatim>\<open>if\<close>/\<^verbatim>\<open>elif\<close> chain on the lower-cased message.\<close>

definition categorize_commit :: "categorized \<Rightarrow> commit \<Rightarrow> categorized" where
  "categorize_commit cats commit =
     (let message = py_lower (py_get commit ''message'' '''') in
      if any_keyword [''feat'', ''feature'', ''add'', ''new''] message
      then cats\<lparr>feature_commits := feature_commits cats @ [commit]\<rparr>
      else if any_keyword [''fix'', ''bug'', ''issue'', ''error'', ''resolv''] message
      then cats\<lparr>bugfix_commits := bugfix_commits cats @ [commit]\<rparr>
      else if any_keyword [''doc'', ''readme'', ''comment''] message
      then cats\<lparr>docs_commits := docs_commits cats @ [commit]\<rparr>
      else if any_keyword [''refactor'', ''clean'', ''restructure''] message
      then cats\<lparr>refactor_commits := refactor_commits cats @ [commit]\<rparr>
      else if any_keyword [''test'', ''spec'', ''assert''] message
      then cats\<lparr>test_commits := test_commits cats @ [commit]\<rparr>
      else cats\<lparr>other_commits := other_commits cats @ [commit]\<rparr>)"

text \<open>The loop \<^verbatim>\<open>for commit in commits\<close>, started with six empty lists.\<close>

fun categorize_loop :: "categorized \<Rightarrow> commit list \<Rightarrow> categorized" where
  "categorize_loop cats [] = cats"
| "categorize_loop cats (commit # commits) = categorize_loop (categorize_commit cats commit) commits"

definition categorize_commits :: "commit list \<Rightarrow> categorized" where
  "categorize_commits commits = categorize_loop no_commits commits"

text \<open>The lower-cased message of a commit, as the loop computes it.\<close>

definition message_of :: "commit \<Rightarrow> string" where
  "message_of commit = py_lower (py_get commit ''message'' '''')"

text \<open>The tests of the five branches of the chain, as predicates on a commit.\<close>

definition is_feature :: "commit \<Rightarrow> bool" where
  "is_feature c = any_keyword [''feat'', ''feature'', ''add'', ''new''] (message_of c)"

definition is_bugfix :: "commit \<Rightarrow> bool" where
  "is_bugfix c = any_keyword [''fix'', ''bug'', ''issue'', ''error'', ''resolv''] (message_of c)"

definition is_docs :: "commit \<Rightarrow> bool" where
  "is_docs c = any_keyword [''doc'', ''readme'', ''comment''] (message_of c)"

definition is_refactor :: "commit \<Rightarrow> bool" where
  "is_refactor c = any_keyword [''refactor'', ''clean'', ''restructure''] (message_of c)"

definition is_test :: "commit \<Rightarrow> bool" where
  "is_test c = any_keyword [''test'', ''spec'', ''assert''] (message_of c)"

text \<open>Commits of the worked example.\<close>

definition commit_add_fix :: commit where
  "commit_add_fix = [''message'' \<mapsto> ''Add fix for login'', ''committer_name'' \<mapsto> ''ana'']"

definition commit_readme :: commit where
  "commit_readme = [''message'' \<mapsto> ''Update README'']"

definition commit_bump :: commit where
  "commit_bump = [''description'' \<mapsto> ''no message key'']"

section \<open>Screenshots (process_screenshot, crop_screenshot)\<close>

text \<open>
  An image is the list of its pixel rows, top row first; \<^verbatim>\<open>img.size\<close> is the pair of
  width and height. \<^verbatim>\<open>img.crop((left, top, right, bottom))\<close> keeps the rows \<open>top\<close> to
  \<open>bottom - 1\<close> and in each the columns \<open>left\<close> to \<open>right - 1\<close> (the source's \<^verbatim>\<open>top\<close> is
  \<open>top_y\<close> here). The files that hold images are a map from paths to images.
\<close>

type_synonym 'p image = "'p list list"

type_synonym 'p files = "string \<rightharpoonup> 'p image"

definition image_width :: "'p image \<Rightarrow> nat" where
  "image_width img = (case img of [] \<Rightarrow> 0 | row # _ \<Rightarrow> length row)"

definition image_height :: "'p image \<Rightarrow> nat" where
  "image_height img = length img"

definition crop :: "'p image \<Rightarrow> nat \<times> nat \<times> nat \<times> nat \<Rightarrow> 'p image" where
  "crop img box =
     (case box of (left, top_y, right, bottom) \<Rightarrow>
        map (\<lambda>row. take (right - left) (drop left row)) (take (bottom - top_y) (drop top_y img)))"

text \<open>
  crop_screenshot of daytrip-planner/main.py. \<open>new_screenshot_path\<close> is the name that
  \<^verbatim>\<open>tempfile.NamedTemporaryFile\<close> picks. The cropped image is saved there and the original
  file is removed if it exists.
\<close>

definition crop_screenshot ::
  "string \<Rightarrow> 'p files \<Rightarrow> string \<Rightarrow> nat \<Rightarrow> nat \<Rightarrow> nat \<Rightarrow> py_exception + (string \<times> 'p files)" where
  "crop_screenshot new_screenshot_path files screenshot_path width height max_dimension =
     (let crop_width = min width max_dimension;
          crop_height = min height max_dimension;
          left = (0::nat); top_y = (0::nat);
          right = min width crop_width;
          bottom = min height crop_height
      in case files screenshot_path of
           None \<Rightarrow> Inl FileNotFoundError
         | Some img \<Rightarrow>
             let cropped_img = crop img (left, top_y, right, bottom);
                 files1 = files(new_screenshot_path \<mapsto> cropped_img);
                 files2 = (if files1 screenshot_path \<noteq> None
                           then files1(screenshot_path := None) else files1)
             in Inr (new_screenshot_path, files2))"

text \<open>process_screenshot of daytrip-planner/main.py.\<close>

definition process_screenshot ::
  "string \<Rightarrow> 'p files \<Rightarrow> string \<Rightarrow> py_exception + (string \<times> 'p files)" where
  "process_screenshot new_screenshot_path files screenshot_path =
     (case files screenshot_path of
        None \<Rightarrow> Inl FileNotFoundError
      | Some img \<Rightarrow>
          let width = image_width img; height = image_height img; max_dimension = 2048
          in if width > max_dimension \<or> height > max_dimension
             then crop_screenshot new_screenshot_path files screenshot_path width height
                    max_dimension
             else Inr (screenshot_path, files))"

text \<open>
  crop_screenshot and process_screenshot of agents/budget-travel-agent/main.py. The
  screenshot arrives as bytes (here: the image they encode) and is first written to a
  temporary file \<open>temp_name\<close>; the crop goes to a second temporary file \<open>crop_name\<close> and
  the first is removed unconditionally.
\<close>

definition crop_screenshot_bt ::
  "string \<Rightarrow> 'p files \<Rightarrow> string \<Rightarrow> nat \<Rightarrow> nat \<Rightarrow> nat \<Rightarrow> py_exception + (string \<times> 'p files)" where
  "crop_screenshot_bt crop_name files screenshot_path width height max_dimension =
     (let crop_width = min width max_dimension;
          crop_height = min height max_dimension;
          left = (0::nat); top_y = (0::nat);
          right = min width crop_width;
          bottom = min height crop_height
      in case files screenshot_path of
           None \<Rightarrow> Inl FileNotFoundError
         | Some img \<Rightarrow>
             let cropped_img = crop img (left, top_y, right, bottom);
                 files1 = files(crop_name \<mapsto> cropped_img)
             in if files1 screenshot_path = None then Inl FileNotFoundError
                else Inr (crop_name, files1(screenshot_path := None)))"

definition process_screenshot_bt ::
  "string \<Rightarrow> string \<Rightarrow> 'p files \<Rightarrow> 'p image \<Rightarrow> py_exception + (string \<times> 'p files)" where
  "process_screenshot_bt temp_name crop_name files screenshot_bytes =
     (let files0 = files(temp_name \<mapsto> screenshot_bytes) in
      case files0 temp_name of
        None \<Rightarrow> Inl FileNotFoundError
      | Some img \<Rightarrow>
          let width = image_width img; height = image_height img; max_dimension = 2048
          in if width > max_dimension \<or> height > max_dimension
             then crop_screenshot_bt crop_name files0 temp_name width height max_dimension
             else Inr (temp_name, files0))"

text \<open>
  The test of process_screenshot, the crop that crop_screenshot computes for an image that
  fails it, and the image that the claim about process_screenshot describes.
\<close>

definition fits :: "'p image \<Rightarrow> bool" where
  "fits img \<longleftrightarrow> \<not> (image_width img > 2048 \<or> image_height img > 2048)"

definition top_left_crop :: "'p image \<Rightarrow> 'p image" where
  "top_left_crop img = crop img (0, 0, min (image_width img) 2048, min (image_height img) 2048)"

definition processed :: "'p image \<Rightarrow> 'p image" where
  "processed img = (if fits img then img else top_left_crop img)"

text \<open>Images of the worked examples: a small one, and one row of 2050 pixels.\<close>

definition small_image :: "nat image" where
  "small_image = [[1, 2, 3], [4, 5, 6]]"

definition wide_image :: "nat image" where
  "wide_image = [replicate 2050 7]"

definition one_small_file :: "nat files" where
  "one_small_file = [''/tmp/shot.png'' \<mapsto> small_image]"

definition one_wide_file :: "nat files" where
  "one_wide_file = [''/tmp/shot.png'' \<mapsto> wide_image]"

section \<open>Response mappers\<close>

text \<open>The JSON values that occur in extraction payloads.\<close>

datatype json = JString string | JInt int | JNull

subsection \<open>ArticleContent.from_json and extract_content (article-tts/app.py)\<close>







subsection \<open>extract_travel_data_from_image (daytrip-planner/chatgpt_parser.py)\<close>

text \<open>
  The validation of one field by pydantic. A JSON string is accepted unchanged by a
  \<^verbatim>\<open>str\<close> field and a JSON integer by an \<^verbatim>\<open>int\<close> field; \<^verbatim>\<open>null\<close> is rejected by both (the
  fields are not Optional). What happens to a value of the other type (a number for a
  \<^verbatim>\<open>str\<close> field, a string for an \<^verbatim>\<open>int\<close> field) depends on the mode and version of the
  library and is an argument: \<open>lax_str\<close> and \<open>lax_int\<close> give the converted value, or \<open>None\<close>
  when the value is rejected.
\<close>

definition str_field :: "(int \<Rightarrow> string option) \<Rightarrow> json \<Rightarrow> string option" where
  "str_field lax_str v =
     (case v of JString s \<Rightarrow> Some s | JInt i \<Rightarrow> lax_str i | JNull \<Rightarrow> None)"

definition int_field :: "(string \<Rightarrow> int option) \<Rightarrow> json \<Rightarrow> int option" where
  "int_field lax_int v =
     (case v of JInt i \<Rightarrow> Some i | JString s \<Rightarrow> lax_int s | JNull \<Rightarrow> None)"

text \<open>A required field (\<^verbatim>\<open>Field(...)\<close>): a missing key is rejected.\<close>

definition required :: "(string \<rightharpoonup> json) \<Rightarrow> string \<Rightarrow> (json \<Rightarrow> 'a option) \<Rightarrow> 'a option" where
  "required obj name field = (case obj name of None \<Rightarrow> None | Some v \<Rightarrow> field v)"

text \<open>
  The validation of one destination object against the pydantic model TravelDestination:
  all six fields are required.
\<close>

definition validate_TravelDestination ::
  "(int \<Rightarrow> string option) \<Rightarrow> (string \<Rightarrow> int option) \<Rightarrow> (string \<rightharpoonup> json)
     \<Rightarrow> TravelDestination option" where
  "validate_TravelDestination lax_str lax_int obj =
     (case required obj ''location'' (str_field lax_str) of None \<Rightarrow> None | Some l \<Rightarrow>
      case required obj ''price'' (int_field lax_int) of None \<Rightarrow> None | Some p \<Rightarrow>
      case required obj ''start_date'' (str_field lax_str) of None \<Rightarrow> None | Some s \<Rightarrow>
      case required obj ''end_date'' (str_field lax_str) of None \<Rightarrow> None | Some e \<Rightarrow>
      case required obj ''travel_time'' (str_field lax_str) of None \<Rightarrow> None | Some t \<Rightarrow>
      case required obj ''stay_cost'' (int_field lax_int) of None \<Rightarrow> None | Some c \<Rightarrow>
        Some \<lparr>location = l, price = p, start_date = s, end_date = e, travel_time = t,
              stay_cost = c\<rparr>)"


text \<open>
  The validation of the field \<^verbatim>\<open>destinations: List[TravelDestination]\<close> of
  TravelResponseData: pydantic builds the list only if every element validates, and
  raises ValidationError otherwise.
\<close>

fun validate_destinations ::
  "(int \<Rightarrow> string option) \<Rightarrow> (string \<Rightarrow> int option) \<Rightarrow> (string \<rightharpoonup> json) list
     \<Rightarrow> TravelDestination list option" where
  "validate_destinations lax_str lax_int [] = Some []"
| "validate_destinations lax_str lax_int (obj # objs) =
     (case validate_TravelDestination lax_str lax_int obj of
        None \<Rightarrow> None
      | Some d \<Rightarrow>
          (case validate_destinations lax_str lax_int objs of
             None \<Rightarrow> None
           | Some ds \<Rightarrow> Some (d # ds)))"

text \<open>
  What \<^verbatim>\<open>client.beta.chat.completions.parse\<close> meets: the request raises, the message has
  no parsed content, or the content is a JSON object whose \<^verbatim>\<open>destinations\<close> is a list of
  objects (which the SDK then validates against TravelResponseData).
\<close>

datatype completion = RequestRaised | NoContent | Destinations "(string \<rightharpoonup> json) list"

text \<open>
  extract_travel_data_from_image. \<open>api_key\<close> is the environment variable (empty when it
  is not set), \<open>image_file\<close> says whether the screenshot can be opened. The two steps
  before the \<^verbatim>\<open>try\<close> raise to the caller; every exception inside the \<^verbatim>\<open>try\<close> is printed,
  and the function then ends without a \<^verbatim>\<open>return\<close>, that is, with None. The result comes
  with the lines printed.
\<close>

definition extract_travel_data_from_image ::
  "(int \<Rightarrow> string option) \<Rightarrow> (string \<Rightarrow> int option) \<Rightarrow> string \<Rightarrow> bool \<Rightarrow> completion
     \<Rightarrow> (py_exception + TravelDestination list option) \<times> string list" where
  "extract_travel_data_from_image lax_str lax_int api_key image_file response =
     (if api_key = '''' then (Inl ValueError, [])
      else if \<not> image_file then (Inl FileNotFoundError, [])
      else case response of
             RequestRaised \<Rightarrow> (Inr None, [''Error using JSON schema in response_format''])
           | NoContent \<Rightarrow> (Inr None, [''Error using JSON schema in response_format''])
           | Destinations objs \<Rightarrow>
               (case validate_destinations lax_str lax_int objs of
                  None \<Rightarrow> (Inr None, [''Error using JSON schema in response_format''])
                | Some destinations \<Rightarrow> (Inr (Some destinations), [])))"

text \<open>The strict mode of the library: no value of the other type is converted.\<close>

definition strict_str :: "int \<Rightarrow> string option" where
  "strict_str i = None"

definition strict_int :: "string \<Rightarrow> int option" where
  "strict_int s = None"


text \<open>Records of the worked examples.\<close>

definition lisbon :: TravelDestination where
  "lisbon = \<lparr>location = ''Lisbon'', price = 120, start_date = ''2025-06-14'',
     end_date = ''2025-06-16'', travel_time = ''1h 20m'', stay_cost = 210\<rparr>"



section \<open>The retried API call (changelog_generator.py, call_openai_api)\<close>

text \<open>
  The kinds of error the specification distinguishes. The repository defines no exception
  classes of its own; the OpenAI client raises those of its SDK.
\<close>

datatype api_error = TransientServiceError | InvalidRequestError | TimeoutError

text \<open>
  The decorator \<^verbatim>\<open>@retry(stop=stop_after_attempt(3), wait=wait_exponential(multiplier=1,
  min=2, max=10))\<close> comes from the library tenacity, which is not part of the repository;
  it is modelled as the library documents it. After a failed attempt number \<open>n\<close> the wait
  is \<open>multiplier * 2 ^ (n - 1)\<close> seconds, raised to \<open>min\<close> and capped at \<open>max\<close>.
\<close>

definition wait_exponential :: "int \<Rightarrow> int \<Rightarrow> int \<Rightarrow> nat \<Rightarrow> int" where
  "wait_exponential multiplier min_wait max_wait attempt_number =
     max (max 0 min_wait) (min (multiplier * 2 ^ (attempt_number - 1)) max_wait)"

text \<open>
  How a retried call ends: with the value of an attempt, with the exception of an attempt
  that the retry predicate does not cover (re-raised as it is), or, when the attempts are
  used up, with tenacity's RetryError, which wraps the last exception (\<^verbatim>\<open>reraise\<close> is not
  set). The result comes with the number of attempts made and the waits slept between
  them.
\<close>

datatype 'a retry_end = Returned 'a | Raised api_error | RetryError api_error

text \<open>
  The loop of tenacity's \<^verbatim>\<open>Retrying\<close>: \<open>fn n\<close> is what attempt number \<open>n\<close> of the wrapped
  function does, \<open>retry_on\<close> the retry predicate, \<open>max_attempt_number\<close> the argument of
  \<^verbatim>\<open>stop_after_attempt\<close>.
\<close>

function retrying ::
  "(api_error \<Rightarrow> bool) \<Rightarrow> nat \<Rightarrow> (nat \<Rightarrow> int) \<Rightarrow> (nat \<Rightarrow> api_error + 'a) \<Rightarrow> nat \<Rightarrow> int list
     \<Rightarrow> 'a retry_end \<times> nat \<times> int list" where
  "retrying retry_on max_attempt_number wait fn attempt_number sleeps =
     (case fn attempt_number of
        Inr v \<Rightarrow> (Returned v, attempt_number, sleeps)
      | Inl exn \<Rightarrow>
          if \<not> retry_on exn then (Raised exn, attempt_number, sleeps)
          else if attempt_number \<ge> max_attempt_number
          then (RetryError exn, attempt_number, sleeps)
          else retrying retry_on max_attempt_number wait fn (attempt_number + 1)
                 (sleeps @ [wait attempt_number]))"
  by pat_completeness auto
termination
  by (relation "measure (\<lambda>(retry_on, max_attempt_number, wait, fn, attempt_number, sleeps).
        max_attempt_number - attempt_number)") auto

declare retrying.simps [simp del]








section \<open>The script runs (main)\<close>

text \<open>
  What a script run does that can be seen from outside: messages on the page, calls of the
  functions that reach a remote service (the creation of a browser session, the capture of
  the screenshot in the remote browser, the extraction by the vision model), the tabs of
  the pagination, an exception that no handler catches, a rerun.
\<close>

datatype event =
    ErrorMessage string
  | InfoMessage string
  | WarningMessage string
  | SessionCreate
  | CaptureExplorePage string string
  | TakeScreenshot string "string option" string
  | ExtractTravelData string
  | Tabs "TravelDestination list" "TravelDestination display"
  | Uncaught py_exception
  | Rerun


subsection \<open>daytrip-planner/main.py\<close>

text \<open>
  The inputs of one run of daytrip-planner: the text of the city box, whether the button
  was pressed, the answer of the geocoding service, what \<^verbatim>\<open>client.sessions.create\<close> gives
  (an exception, or session id and websocket endpoint, the endpoint empty when there is
  none), what capture_explore_page returns (a path or None; it catches its own
  exceptions), the inputs of extract_travel_data_from_image, and the page box. As the
  source stands, the first statement of capture_explore_page reads the attribute
  \<^verbatim>\<open>chromium\<close> of the function \<^verbatim>\<open>sync_playwright\<close> and raises, so that its result is None
  in every run; the model leaves the result open.
\<close>

record env =
  env_city :: string
  env_button :: bool
  env_geocoder :: nominatim
  env_session :: "py_exception + string \<times> string"
  env_capture :: "string option"
  env_lax_str :: "int \<Rightarrow> string option"
  env_lax_int :: "string \<Rightarrow> int option"
  env_api_key :: string
  env_image_file :: bool
  env_completion :: completion
  env_page_entry :: page_entry

text \<open>
  The three memoised functions keep their results by argument (\<^verbatim>\<open>st.cache_data\<close>,
  \<^verbatim>\<open>st.cache_resource\<close>). A stored result is returned without running the body; an entry
  that has expired is absent.
\<close>

record caches =
  browser_cache :: "(string \<times> string) option"
  capture_cache :: "string \<times> string \<rightharpoonup> string option"
  extract_cache :: "string \<rightharpoonup> TravelDestination list option"

text \<open>initialize_session_state, on a new session.\<close>

definition initial_session_state :: session_state where
  "initial_session_state = \<lparr>from_location = '''', page_number = 1,
     selected_destination = None, show_atlas_obscura_modal = False\<rparr>"

text \<open>cached_browser_ws_url: an exception of the body leaves the cache as it is.\<close>

definition cached_browser_ws_url ::
  "env \<Rightarrow> caches \<Rightarrow> (py_exception + string \<times> string) \<times> caches \<times> event list" where
  "cached_browser_ws_url e c =
     (case browser_cache c of
        Some v \<Rightarrow> (Inr v, c, [])
      | None \<Rightarrow>
          (case env_session e of
             Inl exn \<Rightarrow> (Inl exn, c, [SessionCreate])
           | Inr v \<Rightarrow> (Inr v, c\<lparr>browser_cache := Some v\<rparr>, [SessionCreate])))"

text \<open>
  cached_capture_explore_page (lines 45 to 48): the body first sets the page number to 1
  and then captures; a stored result is returned without running the body.
\<close>

definition cached_capture_explore_page ::
  "env \<Rightarrow> string \<Rightarrow> string \<Rightarrow> session_state \<Rightarrow> caches
     \<Rightarrow> string option \<times> session_state \<times> caches \<times> event list" where
  "cached_capture_explore_page e browser_ws_url loc st c =
     (case capture_cache c (browser_ws_url, loc) of
        Some v \<Rightarrow> (v, st, c, [])
      | None \<Rightarrow>
          (env_capture e, st\<lparr>page_number := 1\<rparr>,
           c\<lparr>capture_cache := (capture_cache c)((browser_ws_url, loc) \<mapsto> env_capture e)\<rparr>,
           [CaptureExplorePage browser_ws_url loc]))"

text \<open>
  cached_extract_travel_data (lines 51 to 54): the body first sets the page number to 1
  and then extracts; an exception of the extraction leaves the cache as it is.
\<close>

definition cached_extract_travel_data ::
  "env \<Rightarrow> string \<Rightarrow> session_state \<Rightarrow> caches
     \<Rightarrow> (py_exception + TravelDestination list option) \<times> session_state \<times> caches \<times> event list" where
  "cached_extract_travel_data e image_path st c =
     (case extract_cache c image_path of
        Some v \<Rightarrow> (Inr v, st, c, [])
      | None \<Rightarrow>
          (case fst (extract_travel_data_from_image (env_lax_str e) (env_lax_int e)
                       (env_api_key e) (env_image_file e) (env_completion e)) of
             Inl exn \<Rightarrow> (Inl exn, st\<lparr>page_number := 1\<rparr>, c, [ExtractTravelData image_path])
           | Inr v \<Rightarrow>
               (Inr v, st\<lparr>page_number := 1\<rparr>,
                c\<lparr>extract_cache := (extract_cache c)(image_path \<mapsto> v)\<rparr>,
                [ExtractTravelData image_path])))"

text \<open>
  The second part of main (lines 673 to 688): extraction and display. The second call of
  cached_browser_ws_url finds the entry that the first call found or stored. An
  exception of the extraction is not caught.
\<close>

definition extract_and_display ::
  "env \<Rightarrow> string \<Rightarrow> session_state \<Rightarrow> caches \<Rightarrow> event list \<times> session_state \<times> caches" where
  "extract_and_display e screenshot_tmp_path st c =
     (case cached_extract_travel_data e screenshot_tmp_path st c of
        (Inl exn, st1, c1, evs) \<Rightarrow> (evs @ [Uncaught exn], st1, c1)
      | (Inr None, st1, c1, evs) \<Rightarrow> (evs @ [ErrorMessage ''Could not get travel data''], st1, c1)
      | (Inr (Some travel_data), st1, c1, evs) \<Rightarrow>
          (case display_travel_data (env_page_entry e) travel_data st1 of
             (shown, st2) \<Rightarrow> (evs @ [Tabs travel_data shown], st2, c1)))"

text \<open>
  The first part of the search (lines 643 to 671): session and screenshot, inside the
  \<^verbatim>\<open>try\<close> of main.
\<close>

definition capture_and_display ::
  "env \<Rightarrow> string \<Rightarrow> session_state \<Rightarrow> caches \<Rightarrow> event list \<times> session_state \<times> caches" where
  "capture_and_display e loc st c =
     (case cached_browser_ws_url e c of
        (Inl exn, c1, evs1) \<Rightarrow> (evs1 @ [ErrorMessage ''An error occurred''], st, c1)
      | (Inr (session_id, browser_ws_url), c1, evs1) \<Rightarrow>
          if browser_ws_url = '''' then (evs1 @ [ErrorMessage ''Could not create session''], st, c1)
          else
            (case cached_capture_explore_page e browser_ws_url (py_lower loc) st c1 of
               (None, st2, c2, evs2) \<Rightarrow>
                 (evs1 @ evs2 @ [ErrorMessage ''Could not get screenshot''], st2, c2)
             | (Some screenshot_tmp_path, st2, c2, evs2) \<Rightarrow>
                 (case extract_and_display e screenshot_tmp_path st2 c2 of
                    (evs3, st3, c3) \<Rightarrow> (evs1 @ evs2 @ evs3, st3, c3))))"

text \<open>
  main (lines 611 to 688). The construction of the client object at its start calls no
  service. The text box never gives None. The local variable \<^verbatim>\<open>from_location\<close> of the
  source is \<open>loc\<close> here.
\<close>

definition main :: "env \<Rightarrow> session_state \<Rightarrow> caches \<Rightarrow> event list \<times> session_state \<times> caches" where
  "main e st c =
     (let loc = env_city e in
      if env_button e \<or> loc \<noteq> '''' then
        if \<not> validate_city loc (env_geocoder e)
        then ([ErrorMessage ''doesn't appear to be a valid city. Please try again.''], st, c)
        else
          let st1 = (if loc \<noteq> from_location st
                     then st\<lparr>from_location := loc, page_number := 1,
                            show_atlas_obscura_modal := False, selected_destination := None\<rparr>
                     else st)
          in capture_and_display e loc st1 c
      else ([], st, c))"

text \<open>
  The events that tell that the body of cached_capture_explore_page or of
  cached_extract_travel_data ran in a run, that is, that a new capture or extraction
  replaces the records.
\<close>

definition replaces_records :: "event \<Rightarrow> bool" where
  "replaces_records ev =
     (case ev of
        CaptureExplorePage _ _ \<Rightarrow> True
      | ExtractTravelData _ \<Rightarrow> True
      | _ \<Rightarrow> False)"

definition is_tabs :: "event \<Rightarrow> bool" where
  "is_tabs ev = (case ev of Tabs _ _ \<Rightarrow> True | _ \<Rightarrow> False)"

text \<open>
  The course of the page number through one run of daytrip-planner, as the proofs use it:
  the events before the tabs, the page number they leave (1 if a body ran, the number at
  the start otherwise), and then either the end of the run or the pagination on the
  records of this run.
\<close>

definition reset_page :: "event list \<Rightarrow> int \<Rightarrow> int" where
  "reset_page pre pg = (if list_ex replaces_records pre then 1 else pg)"

definition run_shape :: "page_entry \<Rightarrow> int \<Rightarrow> event list \<Rightarrow> session_state \<Rightarrow> bool" where
  "run_shape entry pg evs st' \<longleftrightarrow>
     (\<exists>pre. \<not> list_ex is_tabs pre \<and>
        ((evs = pre \<and> page_number st' = reset_page pre pg)
         \<or> (\<exists>travel_data shown st1.
               evs = pre @ [Tabs travel_data shown]
             \<and> page_number st1 = reset_page pre pg
             \<and> display_travel_data entry travel_data st1 = (shown, st'))))"

subsection \<open>agents/budget-travel-agent/main.py\<close>

text \<open>
  The inputs of one run of budget-travel-agent: the two text boxes (the destination box
  gives None while it is empty), the trip duration, the button, the answers of the
  geocoding service for the two locations, what the body of take_screenshot does (an
  exception of the session creation, or a path or None), the module-level OpenAI key, the
  inputs of extract_travel_data_from_image, and the page box.
\<close>

record env_bt =
  bt_start :: string
  bt_end :: "string option"
  bt_duration :: string
  bt_button :: bool
  bt_geocoder_start :: nominatim
  bt_geocoder_end :: nominatim
  bt_screenshot :: "py_exception + string option"
  bt_lax_str :: "int \<Rightarrow> string option"
  bt_lax_int :: "string \<Rightarrow> int option"
  bt_api_key :: string
  bt_image_file :: bool
  bt_completion :: completion
  bt_page_entry :: page_entry

text \<open>The results that \<^verbatim>\<open>st.cache_data\<close> keeps for take_screenshot, by its three arguments.\<close>

type_synonym screenshot_cache = "string \<times> string option \<times> string \<rightharpoonup> string option"

text \<open>
  take_screenshot: the body creates a browser session, drives the remote browser and
  returns the path of the screenshot or None. An exception leaves the cache as it is.
\<close>

definition take_screenshot ::
  "env_bt \<Rightarrow> string \<Rightarrow> string option \<Rightarrow> string \<Rightarrow> screenshot_cache
     \<Rightarrow> (py_exception + string option) \<times> screenshot_cache \<times> event list" where
  "take_screenshot e start_location end_location trip_duration c =
     (case c (start_location, end_location, trip_duration) of
        Some v \<Rightarrow> (Inr v, c, [])
      | None \<Rightarrow>
          (case bt_screenshot e of
             Inl exn \<Rightarrow> (Inl exn, c, [TakeScreenshot start_location end_location trip_duration])
           | Inr v \<Rightarrow>
               (Inr v, c((start_location, end_location, trip_duration) \<mapsto> v),
                [TakeScreenshot start_location end_location trip_duration])))"

text \<open>
  The block of main under \<^verbatim>\<open>with st.spinner("Searching for travel options...")\<close> (lines
  519 to 549). Every exception inside is caught and shown, but for the rerun that
  display_travel_data asks for.
\<close>

definition search_travel_options ::
  "env_bt \<Rightarrow> string \<Rightarrow> string option \<Rightarrow> session_state_bt \<Rightarrow> screenshot_cache
     \<Rightarrow> event list \<times> session_state_bt \<times> screenshot_cache" where
  "search_travel_options e start_location end_location st c =
     (case take_screenshot e start_location end_location (bt_duration e) c of
        (Inl exn, c1, evs) \<Rightarrow> (evs @ [ErrorMessage ''An error occurred''], st, c1)
      | (Inr None, c1, evs) \<Rightarrow>
          (evs @ [ErrorMessage ''Could not get the screenshot for the travel options''], st, c1)
      | (Inr (Some screenshot_path), c1, evs) \<Rightarrow>
          if screenshot_path = ''''
          then (evs @ [ErrorMessage ''Could not get the screenshot for the travel options''],
                st, c1)
          else if bt_api_key e = ''''
          then (evs @ [WarningMessage ''OpenAI API key not provided''], st, c1)
          else
            (case fst (extract_travel_data_from_image (bt_lax_str e) (bt_lax_int e)
                         (bt_api_key e) (bt_image_file e) (bt_completion e)) of
               Inl exn \<Rightarrow>
                 (evs @ [ExtractTravelData screenshot_path, ErrorMessage ''An error occurred''],
                  st, c1)
             | Inr None \<Rightarrow>
                 (evs @ [ExtractTravelData screenshot_path,
                         ErrorMessage ''Could not extract travel data from the screenshot''],
                  st, c1)
             | Inr (Some analysis) \<Rightarrow>
                 if analysis = []
                 then (evs @ [ExtractTravelData screenshot_path,
                              ErrorMessage ''Could not extract travel data from the screenshot''],
                       st, c1)
                 else
                   (case display_travel_data_bt (bt_page_entry e) analysis st of
                      (RerunRequested, st1) \<Rightarrow>
                        (evs @ [ExtractTravelData screenshot_path, Rerun], st1, c1)
                    | (WidgetRaised, st1) \<Rightarrow>
                        (evs @ [ExtractTravelData screenshot_path, Tabs analysis WidgetRaised,
                                ErrorMessage ''An error occurred''], st1, c1)
                    | (shown, st1) \<Rightarrow>
                        (evs @ [ExtractTravelData screenshot_path, Tabs analysis shown],
                         st1, c1))))"

text \<open>
  The validation block of main (lines 471 to 517), which calls validate_city on the two
  locations: it ends the run with an error message, asks for a rerun after it has replaced
  a location by the name the geocoder gave, or lets the run go on.
\<close>

datatype validation =
    Invalid "string list" string session_state_bt
  | Replaced "string list" session_state_bt
  | Valid string "string option" session_state_bt

definition validate_start ::
  "env_bt \<Rightarrow> string \<Rightarrow> session_state_bt \<Rightarrow> (string \<times> bool \<times> string list \<times> session_state_bt) option" where
  "validate_start e start_location st =
     (case validate_city_bt start_location (bt_geocoder_start e) of
        (valid_start_location, valid_start_location_name) \<Rightarrow>
          if \<not> valid_start_location then None
          else
            (case valid_start_location_name of
               None \<Rightarrow> Some (start_location, False, [], st)
             | Some name \<Rightarrow>
                 if name \<noteq> start_location
                 then Some (name, True, [''Start location modified''],
                            st\<lparr>from_location_bt := name\<rparr>)
                 else Some (start_location, False, [], st)))"

definition validate_end ::
  "env_bt \<Rightarrow> string option \<Rightarrow> session_state_bt
     \<Rightarrow> (string option \<times> bool \<times> string list \<times> session_state_bt) option" where
  "validate_end e end_location st =
     (case end_location of
        None \<Rightarrow> Some (None, False, [], st)
      | Some end_name \<Rightarrow>
          (case validate_city_bt end_name (bt_geocoder_end e) of
             (valid_end_location, valid_end_location_name) \<Rightarrow>
               if \<not> valid_end_location then None
               else
                 (case valid_end_location_name of
                    None \<Rightarrow> Some (Some end_name, False, [], st)
                  | Some name \<Rightarrow>
                      if name \<noteq> end_name
                      then Some (Some name, True, [''End location modified''],
                                 st\<lparr>end_location_bt := Some name\<rparr>)
                      else Some (Some end_name, False, [], st))))"

definition validate_locations ::
  "env_bt \<Rightarrow> string \<Rightarrow> string option \<Rightarrow> session_state_bt \<Rightarrow> validation" where
  "validate_locations e start_location end_location st =
     (case validate_start e start_location st of
        None \<Rightarrow>
          Invalid [] ''Invalid starting location. Please enter a valid location name.'' st
      | Some (start1, reset1, infos1, st1) \<Rightarrow>
          (case validate_end e end_location st1 of
             None \<Rightarrow>
               Invalid infos1 ''Invalid destination location. Please enter a valid location name.''
                 st1
           | Some (end1, reset2, infos2, st2) \<Rightarrow>
               if reset1 \<or> reset2 then Replaced (infos1 @ infos2) st2
               else Valid start1 end1 st2))"

text \<open>
  main of budget-travel-agent (lines 405 to 549). The flag \<^verbatim>\<open>search_button_clicked\<close> is
  set to True on line 469, and line 470 then tests \<^verbatim>\<open>if not
  st.session_state.search_button_clicked\<close> before the validation block.
\<close>

definition main_bt ::
  "env_bt \<Rightarrow> session_state_bt \<Rightarrow> screenshot_cache
     \<Rightarrow> event list \<times> session_state_bt \<times> screenshot_cache" where
  "main_bt e st c =
     (let start_location = bt_start e;
          st1 = (if start_location \<noteq> from_location_bt st
                 then st\<lparr>search_button_clicked := False\<rparr> else st);
          st2 = st1\<lparr>from_location_bt := start_location\<rparr>;
          end_location = bt_end e;
          st3 = (if end_location \<noteq> end_location_bt st2
                 then st2\<lparr>search_button_clicked := False\<rparr> else st2);
          st4 = st3\<lparr>end_location_bt := end_location\<rparr>
      in if bt_button e \<or> search_button_clicked st4 then
           if start_location = ''''
           then ([ErrorMessage ''Please enter starting location.''], st4, c)
           else
             let st5 = st4\<lparr>search_button_clicked := True\<rparr>
             in if \<not> search_button_clicked st5 then
                  (case validate_locations e start_location end_location st5 of
                     Invalid infos msg st6 \<Rightarrow>
                       (map InfoMessage infos @ [ErrorMessage msg], st6, c)
                   | Replaced infos st6 \<Rightarrow> (map InfoMessage infos @ [Rerun], st6, c)
                   | Valid start1 end1 st6 \<Rightarrow>
                       search_travel_options e start1 end1 st6 c)
                else search_travel_options e start_location end_location st5 c
         else ([], st4, c))"

text \<open>Inputs of the worked examples of the script runs.\<close>

definition no_caches :: caches where
  "no_caches = \<lparr>browser_cache = None, capture_cache = Map.empty, extract_cache = Map.empty\<rparr>"

definition unknown_city_run :: env where
  "unknown_city_run = \<lparr>env_city = ''Qwxzzznotacity'', env_button = True,
     env_geocoder = no_results, env_session = Inr (''session-1'', ''wss://browser/1''),
     env_capture = None, env_lax_str = strict_str, env_lax_int = strict_int,
     env_api_key = ''sk-test'', env_image_file = True, env_completion = NoContent,
     env_page_entry = Untouched\<rparr>"

definition madrid_run :: env where
  "madrid_run = \<lparr>env_city = ''Madrid'', env_button = True,
     env_geocoder = madrid_city, env_session = Inr (''session-1'', ''wss://browser/1''),
     env_capture = None, env_lax_str = strict_str, env_lax_int = strict_int,
     env_api_key = ''sk-test'', env_image_file = True, env_completion = NoContent,
     env_page_entry = Untouched\<rparr>"




definition session_lisbon_page2 :: session_state where
  "session_lisbon_page2 = \<lparr>from_location = ''Lisbon'', page_number = 2,
     selected_destination = None, show_atlas_obscura_modal = False\<rparr>"

definition seven_destinations :: "TravelDestination list" where
  "seven_destinations = [lisbon, lisbon, lisbon, lisbon, lisbon, lisbon, lisbon]"

definition warm_caches :: caches where
  "warm_caches = \<lparr>browser_cache = Some (''session-1'', ''wss://browser/1''),
     capture_cache = [(''wss://browser/1'', ''madrid'') \<mapsto> Some ''/tmp/shot.png''],
     extract_cache = [''/tmp/shot.png'' \<mapsto> Some seven_destinations]\<rparr>"

definition paging_run :: env where
  "paging_run = \<lparr>env_city = ''Madrid'', env_button = False,
     env_geocoder = madrid_city, env_session = Inr (''session-1'', ''wss://browser/1''),
     env_capture = None, env_lax_str = strict_str, env_lax_int = strict_int,
     env_api_key = ''sk-test'', env_image_file = True, env_completion = NoContent,
     env_page_entry = Entered 2\<rparr>"




section \<open>Properties\<close>

subsection \<open>Pages partition the records\<close>

lemma concat_chunks: "concat (map (\<lambda>i. take p (drop (i * p) xs)) [0..<m]) = take (m * p) xs"
proof (induction m)
  case 0 show ?case by simp
next
  case (Suc m)
  have "take (Suc m * p) xs = take (m * p + p) xs" by (simp add: add.commute)
  also have "\<dots> = take (m * p) xs @ take p (drop (m * p) xs)" by (rule take_add)
  finally show ?case using Suc by simp
qed

lemma py_slice_nat:
  assumes "a \<le> b"
  shows "py_slice xs (int a) (int b) = take (b - a) (drop a xs)"
proof (cases "a \<le> length xs")
  case True
  then show ?thesis using assms
    by (auto simp: py_slice_def slice_bound_def Let_def min_def nat_diff_distrib')
next
  case False
  then show ?thesis using assms
    by (auto simp: py_slice_def slice_bound_def Let_def min_def)
qed

lemma py_slice_beyond:
  assumes "length xs \<le> a"
  shows "py_slice xs (int a) (int b) = []"
  using assms by (auto simp: py_slice_def slice_bound_def Let_def min_def)

lemma page_slice_nat:
  assumes "0 < p"
  shows "page_slice xs (int p) (int i + 1) = take p (drop (i * p) xs)"
proof -
  let ?n = "length xs"
  have s: "start_idx_of (int i + 1) (int p) = int (i * p)"
    by (simp add: start_idx_of_def)
  have e: "end_idx_of (int (i * p)) (int p) (int ?n) = int (min (i * p + p) ?n)"
    by (simp add: end_idx_of_def of_nat_min)
  show ?thesis
  proof (cases "i * p \<le> ?n")
    case True
    then have "py_slice xs (int (i * p)) (int (min (i * p + p) ?n))
        = take (min (i * p + p) ?n - i * p) (drop (i * p) xs)"
      by (intro py_slice_nat) simp
    also have "\<dots> = take p (drop (i * p) xs)"
      using True by (simp add: min_def)
    finally show ?thesis by (simp add: page_slice_def Let_def s e del: of_nat_mult of_nat_add of_nat_min)
  next
    case False
    then have "py_slice xs (int (i * p)) (int (min (i * p + p) ?n)) = []"
      by (intro py_slice_beyond) simp
    then show ?thesis using False
      by (simp add: page_slice_def Let_def s e del: of_nat_mult of_nat_add of_nat_min)
  qed
qed

lemma num_pages_bounds:
  assumes "0 < p"
  shows "(num_pages_of n p - 1) * p < n" and "n \<le> num_pages_of n p * p"
proof -
  let ?q = "(n + p - 1) div p" and ?r = "(n + p - 1) mod p"
  have eq: "n + p - 1 = ?q * p + ?r" by simp
  have r: "0 \<le> ?r" "?r < p" using assms by simp_all
  have "n = (?q - 1) * p + ?r + 1" using eq by (simp add: algebra_simps)
  then show "(num_pages_of n p - 1) * p < n" using r unfolding num_pages_of_def by linarith
  have "n = ?q * p + ?r - p + 1" using eq by (simp add: algebra_simps)
  then show "n \<le> num_pages_of n p * p" using r unfolding num_pages_of_def by linarith
qed

lemma num_pages_ceiling:
  assumes "0 < p"
  shows "num_pages_of n p = \<lceil>real_of_int n / real_of_int p\<rceil>"
proof -
  let ?q = "num_pages_of n p"
  have p: "0 < real_of_int p" using assms by simp
  have "real_of_int ((?q - 1) * p) < real_of_int n"
    using num_pages_bounds(1)[OF assms, of n] by (simp only: of_int_less_iff)
  then have lo: "real_of_int ?q - 1 < real_of_int n / real_of_int p"
    using p by (simp add: pos_less_divide_eq)
  have "real_of_int n \<le> real_of_int (?q * p)"
    using num_pages_bounds(2)[OF assms, of n] by (simp only: of_int_le_iff)
  then have hi: "real_of_int n / real_of_int p \<le> real_of_int ?q"
    using p by (simp add: pos_divide_le_eq)
  show ?thesis using lo hi by (simp add: ceiling_unique)
qed


lemma upto_as_nat: "[1..int m] = map (\<lambda>i. int i + 1) [0..<m]"
proof (induction m)
  case 0 show ?case by simp
next
  case (Suc m)
  have "[1..int (Suc m)] = [1..int m] @ [int m + 1]"
    using upto_rec2[of 1 "int m + 1"] by (simp add: add.commute)
  then show ?case using Suc by simp
qed

lemma pages_concat:
  assumes "0 < P"
  shows "concat (map (page_slice travel_data P) [1..num_pages_of (int (length travel_data)) P])
           = travel_data"
proof -
  let ?N = "int (length travel_data)"
  define p where "p = nat P"
  have p: "P = int p" "0 < p"
    using assms by (simp_all add: p_def)
  have "0 \<le> num_pages_of ?N P"
    using assms by (simp add: num_pages_of_def pos_imp_zdiv_nonneg_iff)
  then obtain m where m: "num_pages_of ?N P = int m"
    using nonneg_int_cases by blast
  have cover: "length travel_data \<le> m * p"
  proof -
    have "?N \<le> int m * int p" using num_pages_bounds(2)[OF assms, of ?N] m p by simp
    then have "?N \<le> int (m * p)" by simp
    then show ?thesis by (simp only: of_nat_le_iff)
  qed
  have "map (page_slice travel_data P) [1..int m]
      = map (\<lambda>i. take p (drop (i * p) travel_data)) [0..<m]"
    using p by (simp add: upto_as_nat page_slice_nat)
  then have "concat (map (page_slice travel_data P) [1..int m]) = take (m * p) travel_data"
    by (simp only: concat_chunks)
  then show ?thesis using cover m by simp
qed

text \<open>
  C1. For every page size \<open>P > 0\<close> and every list of records, the number of pages
  \<^verbatim>\<open>(N + P - 1) // P\<close> is the ceiling of \<open>N / P\<close>, and the slices of the pages
  \<open>1, \<dots>, pageCount\<close>, concatenated in page order, are the original list: no record is
  dropped, duplicated or moved. display_travel_data uses \<open>P = page_size = 5\<close>.
\<close>

theorem pagination_partitions_records:
  assumes "0 < P"
  shows "num_pages_of (int (length travel_data)) P
           = \<lceil>real_of_int (int (length travel_data)) / real_of_int P\<rceil>
       \<and> concat (map (page_slice travel_data P)
                    [1..num_pages_of (int (length travel_data)) P]) = travel_data"
  using assms num_pages_ceiling pages_concat by blast

theorem pagination_partitions_records_witness:
  "0 < page_size
   \<and> num_pages_of (int (length [10, 20, 30, 40, 50, 60, 70 :: nat])) page_size
       = \<lceil>real_of_int (int (length [10, 20, 30, 40, 50, 60, 70 :: nat])) / real_of_int page_size\<rceil>
   \<and> concat (map (page_slice [10, 20, 30, 40, 50, 60, 70 :: nat] page_size)
         [1..num_pages_of (int (length [10, 20, 30, 40, 50, 60, 70 :: nat])) page_size])
       = [10, 20, 30, 40, 50, 60, 70]"
proof -
  have h: "0 < page_size" by (simp add: page_size_def)
  show ?thesis
    using h pagination_partitions_records [OF h, of "[10, 20, 30, 40, 50, 60, 70 :: nat]"]
    by blast
qed

lemma destination_tabs_page_slice:
  "destination_tabs travel_data pn =
     Displayed pn (start_idx_of pn page_size)
       (end_idx_of (start_idx_of pn page_size) page_size (int (length travel_data)))
       (page_slice travel_data page_size pn)"
  by (simp add: destination_tabs_def page_slice_def Let_def)

lemma page_in_range_start:
  assumes "0 < ps" "1 \<le> pn" "pn \<le> num_pages_of n ps"
  shows "0 \<le> start_idx_of pn ps" "start_idx_of pn ps < n"
proof -
  show "0 \<le> start_idx_of pn ps" using assms by (simp add: start_idx_of_def)
  have "(pn - 1) * ps \<le> (num_pages_of n ps - 1) * ps"
    using assms by (simp add: mult_right_mono)
  then show "start_idx_of pn ps < n"
    using num_pages_bounds(1)[OF assms(1), of n] by (simp add: start_idx_of_def)
qed

subsection \<open>The page used for the slice\<close>

lemma num_pages_page_size_pos:
  assumes "travel_data \<noteq> []"
  shows "1 \<le> num_pages_of (int (length travel_data)) page_size"
proof -
  have "0 < int (length travel_data)" using assms by simp
  then show ?thesis unfolding num_pages_of_def page_size_def by linarith
qed

lemma destination_tabs_range:
  assumes "1 \<le> pn" "pn \<le> num_pages_of (int (length travel_data)) page_size"
    and "destination_tabs travel_data pn = Displayed p s e items"
  shows "p = pn \<and> s = (pn - 1) * page_size \<and> 0 \<le> s \<and> s < int (length travel_data)
         \<and> items = page_slice travel_data page_size pn"
proof -
  have ps: "0 < page_size" by (simp add: page_size_def)
  from assms(3) have eqs: "p = pn" "s = start_idx_of pn page_size"
    "items = page_slice travel_data page_size pn"
    by (auto simp: destination_tabs_page_slice)
  show ?thesis
    using eqs page_in_range_start[OF ps assms(1,2)] by (simp add: start_idx_of_def)
qed

lemma number_input_returns:
  assumes "number_input min_value max_value v entry = Inr pn"
  shows "min_value \<le> pn \<and> pn \<le> max_value \<and> min_value \<le> v \<and> v \<le> max_value"
  using assms by (auto simp: number_input_def split: if_splits page_entry.splits)

lemma number_input_raises:
  assumes "v < min_value \<or> max_value < v"
  shows "number_input min_value max_value v entry = Inl StreamlitAPIException"
  using assms by (simp add: number_input_def)

lemma number_input_in_range:
  assumes "min_value \<le> v" "v \<le> max_value"
  shows "\<exists>pn. number_input min_value max_value v entry = Inr pn"
  using assms by (auto simp: number_input_def split: page_entry.splits)

lemma display_travel_data_page:
  assumes d: "display_travel_data page_input travel_data st = (Displayed p s e items, st')"
  shows "1 \<le> p \<and> p \<le> num_pages_of (int (length travel_data)) page_size
       \<and> (num_pages_of (int (length travel_data)) page_size \<le> 1 \<longrightarrow> p = 1)
       \<and> s = (p - 1) * page_size \<and> s \<le> int (length travel_data)
       \<and> page_number st' = p"
proof -
  let ?np = "num_pages_of (int (length travel_data)) page_size"
  from d have ne: "travel_data \<noteq> []"
    by (auto simp: display_travel_data_def)
  show ?thesis
  proof (cases "?np > 1")
    case True
    have unfolded: "display_travel_data page_input travel_data st =
        (case number_input 1 ?np (page_number st) page_input of
           Inl exn \<Rightarrow> (WidgetRaised, st)
         | Inr pn \<Rightarrow> (destination_tabs travel_data pn, st\<lparr>page_number := pn\<rparr>))"
      using ne True by (simp add: display_travel_data_def Let_def)
    obtain pn where w: "number_input 1 ?np (page_number st) page_input = Inr pn"
      using d unfolded by (cases "number_input 1 ?np (page_number st) page_input") simp_all
    have t: "destination_tabs travel_data pn = Displayed p s e items"
      and st': "st' = st\<lparr>page_number := pn\<rparr>"
      using d unfolded w by simp_all
    have r: "1 \<le> pn" "pn \<le> ?np" using number_input_returns[OF w] by simp_all
    show ?thesis using destination_tabs_range[OF r t] r st' True by simp
  next
    case False
    have r: "(1::int) \<le> 1" "1 \<le> ?np"
      using num_pages_page_size_pos[OF ne] by simp_all
    from d ne False have t: "destination_tabs travel_data 1 = Displayed p s e items"
      and st': "st' = st\<lparr>page_number := 1\<rparr>"
      by (simp_all add: display_travel_data_def Let_def)
    show ?thesis using destination_tabs_range[OF r t] r st' by simp
  qed
qed

lemma display_travel_data_bt_page:
  assumes d: "display_travel_data_bt page_input travel_data st = (Displayed p s e items, st')"
  shows "1 \<le> p \<and> p \<le> num_pages_of (int (length travel_data)) page_size
       \<and> (num_pages_of (int (length travel_data)) page_size \<le> 1 \<longrightarrow> p = 1)
       \<and> s = (p - 1) * page_size \<and> s \<le> int (length travel_data)
       \<and> page_number_bt st' = p"
proof -
  let ?np = "num_pages_of (int (length travel_data)) page_size"
  from d have ne: "travel_data \<noteq> []"
    by (auto simp: display_travel_data_bt_def)
  show ?thesis
  proof (cases "?np > 1")
    case True
    have unfolded: "display_travel_data_bt page_input travel_data st =
        (case number_input 1 ?np (page_number_bt st) page_input of
           Inl exn \<Rightarrow> (WidgetRaised, st)
         | Inr pn \<Rightarrow>
             if pn \<noteq> page_number_bt st
             then (RerunRequested, st\<lparr>page_number_bt := pn\<rparr>)
             else (destination_tabs travel_data pn, st))"
      using ne True by (simp add: display_travel_data_bt_def Let_def)
    obtain pn where w: "number_input 1 ?np (page_number_bt st) page_input = Inr pn"
      using d unfolded by (cases "number_input 1 ?np (page_number_bt st) page_input") simp_all
    have same: "pn = page_number_bt st"
      using d unfolded w by (cases "pn = page_number_bt st") simp_all
    have shown: "display_travel_data_bt page_input travel_data st
        = (destination_tabs travel_data pn, st)"
      using unfolded w same by simp
    have "(Displayed p s e items, st') = (destination_tabs travel_data pn, st)"
      by (rule trans [OF d [symmetric] shown])
    then have t: "destination_tabs travel_data pn = Displayed p s e items"
      and st': "st' = st"
      by (simp_all only: prod.inject)
    have r: "1 \<le> pn" "pn \<le> ?np" using number_input_returns[OF w] by simp_all
    show ?thesis using destination_tabs_range[OF r t] r st' same True by simp
  next
    case False
    have r: "(1::int) \<le> 1" "1 \<le> ?np"
      using num_pages_page_size_pos[OF ne] by simp_all
    from d ne False have t: "destination_tabs travel_data 1 = Displayed p s e items"
      and st': "st' = st\<lparr>page_number_bt := 1\<rparr>"
      by (simp_all add: display_travel_data_bt_def Let_def)
    show ?thesis using destination_tabs_range[OF r t] r st' by simp
  qed
qed

lemma display_travel_data_raises:
  assumes "travel_data \<noteq> []" "1 < num_pages_of (int (length travel_data)) page_size"
    and "page_number st < 1 \<or> num_pages_of (int (length travel_data)) page_size < page_number st"
  shows "display_travel_data page_input travel_data st = (WidgetRaised, st)"
  using assms by (simp add: display_travel_data_def Let_def number_input_raises)

lemma display_travel_data_bt_raises:
  assumes "travel_data \<noteq> []" "1 < num_pages_of (int (length travel_data)) page_size"
    and "page_number_bt st < 1
         \<or> num_pages_of (int (length travel_data)) page_size < page_number_bt st"
  shows "display_travel_data_bt page_input travel_data st = (WidgetRaised, st)"
  using assms by (simp add: display_travel_data_bt_def Let_def number_input_raises)

lemma display_travel_data_shows:
  assumes "travel_data \<noteq> []"
    and "num_pages_of (int (length travel_data)) page_size \<le> 1
         \<or> (1 \<le> page_number st
            \<and> page_number st \<le> num_pages_of (int (length travel_data)) page_size)"
  shows "\<exists>p s e items.
           display_travel_data page_input travel_data st
             = (Displayed p s e items, st\<lparr>page_number := p\<rparr>)"
proof (cases "num_pages_of (int (length travel_data)) page_size > 1")
  case True
  then obtain pn where
    "number_input 1 (num_pages_of (int (length travel_data)) page_size) (page_number st)
       page_input = Inr pn"
    using assms(2) number_input_in_range by fastforce
  then show ?thesis
    using assms(1) True
    by (simp add: display_travel_data_def Let_def destination_tabs_page_slice)
next
  case False
  then show ?thesis
    using assms(1) by (simp add: display_travel_data_def Let_def destination_tabs_page_slice)
qed

text \<open>
  Against C2 as stated: with seven records there are two pages; a stored page 9
  (daytrip-planner) or 3 (budget-travel-agent) is not clamped to page 2, the widget raises
  and no slice is displayed.
\<close>

theorem stale_page_is_not_clamped:
  "display_travel_data Untouched seven_records stale_session = (WidgetRaised, stale_session)
   \<and> display_travel_data_bt Untouched seven_records session_bt_page3
       = (WidgetRaised, session_bt_page3)
   \<and> num_pages_of (int (length seven_records)) page_size = 2
   \<and> page_number stale_session = 9 \<and> page_number_bt session_bt_page3 = 3"
  by (simp add: display_travel_data_def display_travel_data_bt_def seven_records_def
      stale_session_def session_bt_page3_def num_pages_of_def page_size_def number_input_def
      Let_def)

text \<open>
  C2 (as amended). display_travel_data, in both versions, does not clamp the stored page
  number. With at most one page the page used for the slice is the literal 1. With
  several pages it is what \<^verbatim>\<open>st.number_input(min_value=1, max_value=num_pages, value=stored
  page)\<close> returns: a stored page outside \<open>[1, pageCount]\<close> makes the widget raise and no slice is
  displayed, and a stored page inside gives a page inside. So whenever a page is
  displayed its number lies in \<open>[1, pageCount]\<close>, it is 1 when \<open>pageCount \<le> 1\<close>, and the start
  index \<open>(page - 1) * page_size\<close> does not exceed the number of records.
\<close>

theorem displayed_page_in_range:
  "(display_travel_data page_input travel_data st = (Displayed p s e items, st') \<longrightarrow>
       1 \<le> p \<and> p \<le> num_pages_of (int (length travel_data)) page_size
     \<and> (num_pages_of (int (length travel_data)) page_size \<le> 1 \<longrightarrow> p = 1)
     \<and> s = (p - 1) * page_size \<and> s \<le> int (length travel_data))
   \<and> (display_travel_data_bt page_input travel_data st_bt = (Displayed p s e items, st_bt') \<longrightarrow>
       1 \<le> p \<and> p \<le> num_pages_of (int (length travel_data)) page_size
     \<and> (num_pages_of (int (length travel_data)) page_size \<le> 1 \<longrightarrow> p = 1)
     \<and> s = (p - 1) * page_size \<and> s \<le> int (length travel_data))
   \<and> (travel_data \<noteq> [] \<and> 1 < num_pages_of (int (length travel_data)) page_size
        \<and> (page_number st < 1
            \<or> num_pages_of (int (length travel_data)) page_size < page_number st) \<longrightarrow>
       display_travel_data page_input travel_data st = (WidgetRaised, st))
   \<and> (travel_data \<noteq> [] \<and> 1 < num_pages_of (int (length travel_data)) page_size
        \<and> (page_number_bt st_bt < 1
            \<or> num_pages_of (int (length travel_data)) page_size < page_number_bt st_bt) \<longrightarrow>
       display_travel_data_bt page_input travel_data st_bt = (WidgetRaised, st_bt))
   \<and> (travel_data \<noteq> []
        \<and> (num_pages_of (int (length travel_data)) page_size \<le> 1
            \<or> (1 \<le> page_number st
               \<and> page_number st \<le> num_pages_of (int (length travel_data)) page_size)) \<longrightarrow>
       (\<exists>q s1 e1 items1.
          display_travel_data page_input travel_data st
            = (Displayed q s1 e1 items1, st\<lparr>page_number := q\<rparr>)))"
  using display_travel_data_page [of page_input travel_data st p s e items st']
    display_travel_data_bt_page [of page_input travel_data st_bt p s e items st_bt']
    display_travel_data_raises [of travel_data st page_input]
    display_travel_data_bt_raises [of travel_data st_bt page_input]
    display_travel_data_shows [of travel_data st page_input]
  by blast

theorem displayed_page_in_range_witness:
  "display_travel_data (Entered 2) seven_records session_page1
     = (Displayed 2 5 7 [60, 70], session_page1\<lparr>page_number := 2\<rparr>)
   \<and> display_travel_data_bt (Entered 2) seven_records session_bt_page2
     = (Displayed 2 5 7 [60, 70], session_bt_page2)
   \<and> (1::int) \<le> 2 \<and> 2 \<le> num_pages_of (int (length seven_records)) page_size
   \<and> (5::int) = (2 - 1) * page_size \<and> 5 \<le> int (length seven_records)
   \<and> seven_records \<noteq> [] \<and> 1 < num_pages_of (int (length seven_records)) page_size
   \<and> num_pages_of (int (length seven_records)) page_size < page_number stale_session
   \<and> num_pages_of (int (length seven_records)) page_size < page_number_bt session_bt_page3
   \<and> display_travel_data (Entered 2) seven_records stale_session = (WidgetRaised, stale_session)
   \<and> display_travel_data_bt (Entered 2) seven_records session_bt_page3
     = (WidgetRaised, session_bt_page3)"
proof -
  have d: "display_travel_data (Entered 2) seven_records session_page1
      = (Displayed 2 5 7 [60, 70], session_page1\<lparr>page_number := 2\<rparr>)"
    by (simp add: display_travel_data_def destination_tabs_def seven_records_def
        session_page1_def num_pages_of_def page_size_def number_input_def start_idx_of_def
        end_idx_of_def py_slice_def slice_bound_def Let_def)
  have b: "display_travel_data_bt (Entered 2) seven_records session_bt_page2
      = (Displayed 2 5 7 [60, 70], session_bt_page2)"
    by (simp add: display_travel_data_bt_def destination_tabs_def seven_records_def
        session_bt_page2_def num_pages_of_def page_size_def number_input_def start_idx_of_def
        end_idx_of_def py_slice_def slice_bound_def Let_def)
  have n: "seven_records \<noteq> []" "num_pages_of (int (length seven_records)) page_size = 2"
    "page_number stale_session = 9" "page_number_bt session_bt_page3 = 3"
    by (simp_all add: seven_records_def num_pages_of_def page_size_def stale_session_def
        session_bt_page3_def)
  show ?thesis
    using d b n
      displayed_page_in_range [of "Entered 2" seven_records session_page1 2 5 7 "[60, 70]"
        "session_page1\<lparr>page_number := 2\<rparr>" session_bt_page2 session_bt_page2]
      displayed_page_in_range [of "Entered 2" seven_records stale_session 2 5 7 "[60, 70]"
        stale_session session_bt_page3 session_bt_page3]
    by simp
qed


subsection \<open>Location validation\<close>

lemma starts_with_iff: "starts_with k s \<longleftrightarrow> (\<exists>q. s = k @ q)"
  by (induction k s rule: starts_with.induct) auto

lemma py_in_iff: "py_in k s \<longleftrightarrow> (\<exists>p q. s = p @ k @ q)"
proof (induction s)
  case Nil
  then show ?case by auto
next
  case (Cons c cs)
  show ?case
  proof
    assume "py_in k (c # cs)"
    then consider "starts_with k (c # cs)" | "py_in k cs" by auto
    then show "\<exists>p q. c # cs = p @ k @ q"
    proof cases
      case 1
      then obtain q where "c # cs = k @ q" by (auto simp: starts_with_iff)
      then have "c # cs = [] @ k @ q" by simp
      then show ?thesis by blast
    next
      case 2
      then obtain p q where "cs = p @ k @ q" using Cons.IH by blast
      then have "c # cs = (c # p) @ k @ q" by simp
      then show ?thesis by blast
    qed
  next
    assume "\<exists>p q. c # cs = p @ k @ q"
    then obtain p q where pq: "c # cs = p @ k @ q" by blast
    show "py_in k (c # cs)"
    proof (cases p)
      case Nil
      then have "starts_with k (c # cs)" using pq by (auto simp: starts_with_iff)
      then show ?thesis by simp
    next
      case (Cons a p')
      then have "cs = p' @ k @ q" using pq by simp
      then have "py_in k cs" using Cons.IH by blast
      then show ?thesis by simp
    qed
  qed
qed

text \<open>
  C8. validate_city of daytrip-planner returns True exactly when the geocoding response
  is a non-empty list and the address type of its first result contains "city", or
  contains "town" and the display name equals the queried name up to letter case. The
  name comparison belongs to the "town" branch only: a "city" result is accepted whatever
  its display name. An empty list, and any failure of the request, give False.
\<close>

theorem validate_city_precedence:
  "validate_city city_name response \<longleftrightarrow>
     (\<exists>d rest. response = Results (d # rest) \<and>
        (py_in ''city'' (py_lower (py_get d ''addresstype'' ''''))
         \<or> (py_in ''town'' (py_lower (py_get d ''addresstype'' ''''))
            \<and> py_lower (py_get d ''display_name'' '''') = py_lower city_name)))"
  by (auto simp: validate_city_def split: nominatim.splits list.splits)

theorem validate_city_precedence_witness:
  "validate_city ''Madrid'' madrid_city \<and> \<not> validate_city ''Madrid'' madrid_town
   \<and> validate_city ''Madrid'' madrid_town_exact \<and> \<not> validate_city ''Madrid'' no_results
   \<and> \<not> validate_city ''Madrid'' RequestFailed"
  by (simp add: validate_city_precedence madrid_city_def madrid_town_def madrid_town_exact_def
      no_results_def py_get_def py_lower_def lower_char_def)

subsection \<open>Commit categories\<close>

lemma categorize_commit_cases:
  "categorize_commit cats c =
     (if any_keyword [''feat'', ''feature'', ''add'', ''new''] (message_of c)
      then cats\<lparr>feature_commits := feature_commits cats @ [c]\<rparr>
      else if any_keyword [''fix'', ''bug'', ''issue'', ''error'', ''resolv''] (message_of c)
      then cats\<lparr>bugfix_commits := bugfix_commits cats @ [c]\<rparr>
      else if any_keyword [''doc'', ''readme'', ''comment''] (message_of c)
      then cats\<lparr>docs_commits := docs_commits cats @ [c]\<rparr>
      else if any_keyword [''refactor'', ''clean'', ''restructure''] (message_of c)
      then cats\<lparr>refactor_commits := refactor_commits cats @ [c]\<rparr>
      else if any_keyword [''test'', ''spec'', ''assert''] (message_of c)
      then cats\<lparr>test_commits := test_commits cats @ [c]\<rparr>
      else cats\<lparr>other_commits := other_commits cats @ [c]\<rparr>)"
  unfolding categorize_commit_def message_of_def Let_def by (rule refl)

lemma categorize_commit_flags:
  "categorize_commit cats c =
     (if is_feature c then cats\<lparr>feature_commits := feature_commits cats @ [c]\<rparr>
      else if is_bugfix c then cats\<lparr>bugfix_commits := bugfix_commits cats @ [c]\<rparr>
      else if is_docs c then cats\<lparr>docs_commits := docs_commits cats @ [c]\<rparr>
      else if is_refactor c then cats\<lparr>refactor_commits := refactor_commits cats @ [c]\<rparr>
      else if is_test c then cats\<lparr>test_commits := test_commits cats @ [c]\<rparr>
      else cats\<lparr>other_commits := other_commits cats @ [c]\<rparr>)"
  unfolding categorize_commit_cases is_feature_def is_bugfix_def is_docs_def is_refactor_def
    is_test_def by (rule refl)

lemma loop_feature:
  "feature_commits (categorize_loop cats cs) = feature_commits cats @ filter is_feature cs"
  by (induction cs arbitrary: cats) (simp_all add: categorize_commit_flags)

lemma loop_bugfix:
  "bugfix_commits (categorize_loop cats cs)
     = bugfix_commits cats @ filter (\<lambda>c. \<not> is_feature c \<and> is_bugfix c) cs"
  by (induction cs arbitrary: cats) (simp_all add: categorize_commit_flags)

lemma loop_docs:
  "docs_commits (categorize_loop cats cs)
     = docs_commits cats @ filter (\<lambda>c. \<not> is_feature c \<and> \<not> is_bugfix c \<and> is_docs c) cs"
  by (induction cs arbitrary: cats) (simp_all add: categorize_commit_flags)

lemma loop_refactor:
  "refactor_commits (categorize_loop cats cs)
     = refactor_commits cats
       @ filter (\<lambda>c. \<not> is_feature c \<and> \<not> is_bugfix c \<and> \<not> is_docs c \<and> is_refactor c) cs"
  by (induction cs arbitrary: cats) (simp_all add: categorize_commit_flags)

lemma loop_test:
  "test_commits (categorize_loop cats cs)
     = test_commits cats
       @ filter (\<lambda>c. \<not> is_feature c \<and> \<not> is_bugfix c \<and> \<not> is_docs c \<and> \<not> is_refactor c
                    \<and> is_test c) cs"
  by (induction cs arbitrary: cats) (simp_all add: categorize_commit_flags)

lemma loop_other:
  "other_commits (categorize_loop cats cs)
     = other_commits cats
       @ filter (\<lambda>c. \<not> is_feature c \<and> \<not> is_bugfix c \<and> \<not> is_docs c \<and> \<not> is_refactor c
                    \<and> \<not> is_test c) cs"
  by (induction cs arbitrary: cats) (simp_all add: categorize_commit_flags)

lemma mset_six_filters:
  "mset (filter f cs) + mset (filter (\<lambda>c. \<not> f c \<and> b c) cs)
   + mset (filter (\<lambda>c. \<not> f c \<and> \<not> b c \<and> d c) cs)
   + mset (filter (\<lambda>c. \<not> f c \<and> \<not> b c \<and> \<not> d c \<and> r c) cs)
   + mset (filter (\<lambda>c. \<not> f c \<and> \<not> b c \<and> \<not> d c \<and> \<not> r c \<and> t c) cs)
   + mset (filter (\<lambda>c. \<not> f c \<and> \<not> b c \<and> \<not> d c \<and> \<not> r c \<and> \<not> t c) cs)
   = mset cs"
  by (induction cs) auto

text \<open>
  C9. The loop of generate_categorized_changelog partitions the commits: the six lists
  together hold every commit of the input exactly once (as multisets, so repeated commits
  count), and each list is the input filtered, in input order, by "this branch's keywords
  occur in the lower-cased message and no earlier branch's do". A commit that matches the
  keywords of several categories is therefore only in the first of them, in the order
  Features, Bug Fixes, Documentation, Refactoring, Tests, Other Changes.
\<close>

theorem categorization_partitions_commits:
  "mset (feature_commits (categorize_commits commits) @ bugfix_commits (categorize_commits commits)
         @ docs_commits (categorize_commits commits) @ refactor_commits (categorize_commits commits)
         @ test_commits (categorize_commits commits) @ other_commits (categorize_commits commits))
     = mset commits
   \<and> feature_commits (categorize_commits commits) = filter is_feature commits
   \<and> bugfix_commits (categorize_commits commits)
       = filter (\<lambda>c. \<not> is_feature c \<and> is_bugfix c) commits
   \<and> docs_commits (categorize_commits commits)
       = filter (\<lambda>c. \<not> is_feature c \<and> \<not> is_bugfix c \<and> is_docs c) commits
   \<and> refactor_commits (categorize_commits commits)
       = filter (\<lambda>c. \<not> is_feature c \<and> \<not> is_bugfix c \<and> \<not> is_docs c \<and> is_refactor c) commits
   \<and> test_commits (categorize_commits commits)
       = filter (\<lambda>c. \<not> is_feature c \<and> \<not> is_bugfix c \<and> \<not> is_docs c \<and> \<not> is_refactor c
                     \<and> is_test c) commits
   \<and> other_commits (categorize_commits commits)
       = filter (\<lambda>c. \<not> is_feature c \<and> \<not> is_bugfix c \<and> \<not> is_docs c \<and> \<not> is_refactor c
                     \<and> \<not> is_test c) commits"
proof -
  let ?r = "categorize_commits commits"
  have f: "feature_commits ?r = filter is_feature commits"
    by (simp add: categorize_commits_def loop_feature no_commits_def)
  have b: "bugfix_commits ?r = filter (\<lambda>c. \<not> is_feature c \<and> is_bugfix c) commits"
    by (simp add: categorize_commits_def loop_bugfix no_commits_def)
  have d: "docs_commits ?r
      = filter (\<lambda>c. \<not> is_feature c \<and> \<not> is_bugfix c \<and> is_docs c) commits"
    by (simp add: categorize_commits_def loop_docs no_commits_def)
  have r: "refactor_commits ?r
      = filter (\<lambda>c. \<not> is_feature c \<and> \<not> is_bugfix c \<and> \<not> is_docs c \<and> is_refactor c) commits"
    by (simp add: categorize_commits_def loop_refactor no_commits_def)
  have t: "test_commits ?r
      = filter (\<lambda>c. \<not> is_feature c \<and> \<not> is_bugfix c \<and> \<not> is_docs c \<and> \<not> is_refactor c
                    \<and> is_test c) commits"
    by (simp add: categorize_commits_def loop_test no_commits_def)
  have o: "other_commits ?r
      = filter (\<lambda>c. \<not> is_feature c \<and> \<not> is_bugfix c \<and> \<not> is_docs c \<and> \<not> is_refactor c
                    \<and> \<not> is_test c) commits"
    by (simp add: categorize_commits_def loop_other no_commits_def)
  have "mset (feature_commits ?r @ bugfix_commits ?r @ docs_commits ?r @ refactor_commits ?r
          @ test_commits ?r @ other_commits ?r) = mset commits"
    unfolding f b d r t o mset_append
    using mset_six_filters [of is_feature commits is_bugfix is_docs is_refactor is_test]
    by (simp only: add.assoc)
  then show ?thesis using f b d r t o by simp
qed

lemma flags_add_fix: "is_feature commit_add_fix" "is_bugfix commit_add_fix"
  by (simp_all add: is_feature_def is_bugfix_def any_keyword_def message_of_def commit_add_fix_def
      py_get_def py_lower_def lower_char_def)

lemma flags_readme: "\<not> is_feature commit_readme" "\<not> is_bugfix commit_readme" "is_docs commit_readme"
  by (simp_all add: is_feature_def is_bugfix_def is_docs_def any_keyword_def message_of_def
      commit_readme_def py_get_def py_lower_def lower_char_def)

lemma flags_bump: "\<not> is_feature commit_bump" "\<not> is_bugfix commit_bump" "\<not> is_docs commit_bump"
   "\<not> is_refactor commit_bump" "\<not> is_test commit_bump"
  by (simp_all add: is_feature_def is_bugfix_def is_docs_def is_refactor_def is_test_def
      any_keyword_def message_of_def commit_bump_def py_get_def py_lower_def lower_char_def)

theorem categorization_partitions_commits_witness:
  "is_feature commit_add_fix \<and> is_bugfix commit_add_fix
   \<and> feature_commits (categorize_commits [commit_add_fix, commit_readme, commit_bump])
       = [commit_add_fix]
   \<and> bugfix_commits (categorize_commits [commit_add_fix, commit_readme, commit_bump]) = []
   \<and> docs_commits (categorize_commits [commit_add_fix, commit_readme, commit_bump])
       = [commit_readme]
   \<and> other_commits (categorize_commits [commit_add_fix, commit_readme, commit_bump])
       = [commit_bump]"
  using categorization_partitions_commits [of "[commit_add_fix, commit_readme, commit_bump]"]
  by (simp add: flags_add_fix flags_readme flags_bump)


subsection \<open>Screenshots stay within 2048 by 2048\<close>

lemma crop_origin: "crop img (0, 0, r, b) = map (take r) (take b img)"
  by (simp add: crop_def)

lemma crop_height: "image_height (crop img (0, 0, r, b)) = min b (image_height img)"
  by (simp add: crop_origin image_height_def min.commute)

lemma crop_width:
  assumes "0 < b"
  shows "image_width (crop img (0, 0, r, b)) = min r (image_width img)"
proof (cases img)
  case Nil
  then show ?thesis by (simp add: crop_origin image_width_def)
next
  case (Cons row rows)
  obtain b' where "b = Suc b'" using assms by (cases b) auto
  then show ?thesis using Cons by (simp add: crop_origin image_width_def min.commute)
qed

lemma crop_pixel:
  assumes "y < b" "y < length img" "x < r" "x < length (img ! y)"
  shows "crop img (0, 0, r, b) ! y ! x = img ! y ! x"
  using assms by (simp add: crop_origin)

lemma top_left_crop_size:
  assumes "\<not> fits img"
  shows "image_width (top_left_crop img) = min (image_width img) 2048"
    and "image_height (top_left_crop img) = min (image_height img) 2048"
proof -
  from assms have "img \<noteq> []" by (auto simp: fits_def image_width_def image_height_def)
  then have "0 < min (image_height img) 2048" by (simp add: image_height_def)
  then show "image_width (top_left_crop img) = min (image_width img) 2048"
    unfolding top_left_crop_def by (simp add: crop_width)
  show "image_height (top_left_crop img) = min (image_height img) 2048"
    unfolding top_left_crop_def by (simp add: crop_height)
qed

lemma process_screenshot_fits:
  assumes "files screenshot_path = Some img" "fits img"
  shows "process_screenshot new_screenshot_path files screenshot_path = Inr (screenshot_path, files)"
  using assms by (simp add: process_screenshot_def fits_def Let_def)

lemma process_screenshot_crops:
  assumes "files screenshot_path = Some img" "\<not> fits img"
  shows "process_screenshot new_screenshot_path files screenshot_path
     = Inr (new_screenshot_path,
            (files(new_screenshot_path \<mapsto> top_left_crop img))(screenshot_path := None))"
  using assms
  by (auto simp: process_screenshot_def crop_screenshot_def fits_def top_left_crop_def Let_def)

lemma process_screenshot_bt_fits:
  assumes "fits img"
  shows "process_screenshot_bt temp_name crop_name files img
     = Inr (temp_name, files(temp_name \<mapsto> img))"
  using assms by (simp add: process_screenshot_bt_def fits_def Let_def)

lemma process_screenshot_bt_crops:
  assumes "\<not> fits img" "crop_name \<noteq> temp_name"
  shows "process_screenshot_bt temp_name crop_name files img
     = Inr (crop_name,
            (files(temp_name \<mapsto> img, crop_name \<mapsto> top_left_crop img))(temp_name := None))"
  using assms
  by (auto simp: process_screenshot_bt_def crop_screenshot_bt_def fits_def top_left_crop_def Let_def)

lemma processed_size:
  "image_width (processed img) = min (image_width img) 2048"
  "image_height (processed img) = min (image_height img) 2048"
  using top_left_crop_size[of img] by (auto simp: processed_def fits_def)

lemma process_screenshot_result:
  assumes "files screenshot_path = Some img" and "files new_screenshot_path = None"
  shows "\<exists>out_path files'.
           process_screenshot new_screenshot_path files screenshot_path = Inr (out_path, files')
         \<and> files' out_path = Some (processed img)
         \<and> out_path = (if fits img then screenshot_path else new_screenshot_path)
         \<and> (fits img \<longrightarrow> files' = files)"
proof (cases "fits img")
  case True
  then show ?thesis
    using assms(1) by (simp add: process_screenshot_fits processed_def)
next
  case False
  have ne: "new_screenshot_path \<noteq> screenshot_path" using assms by auto
  have "process_screenshot new_screenshot_path files screenshot_path
      = Inr (new_screenshot_path,
             (files(new_screenshot_path \<mapsto> top_left_crop img))(screenshot_path := None))"
    using assms(1) False by (rule process_screenshot_crops)
  then show ?thesis
    using False ne by (simp add: processed_def)
qed

lemma process_screenshot_bt_result:
  assumes "crop_name \<noteq> temp_name"
  shows "\<exists>out_path files'.
           process_screenshot_bt temp_name crop_name files img = Inr (out_path, files')
         \<and> files' out_path = Some (processed img)
         \<and> out_path = (if fits img then temp_name else crop_name)"
proof (cases "fits img")
  case True
  then show ?thesis by (simp add: process_screenshot_bt_fits processed_def)
next
  case False
  then show ?thesis
    using assms by (simp add: process_screenshot_bt_crops processed_def)
qed

text \<open>
  C10. For every stored screenshot, process_screenshot (both versions) returns the path
  of a file that holds an image of width and height at most 2048. An image that already
  fits is returned unchanged (in daytrip-planner under its own path, with the files
  untouched); any other image is replaced by its top-left crop of size
  \<open>(min width 2048, min height 2048)\<close>, saved under the new temporary name. The names that
  \<^verbatim>\<open>tempfile\<close> picks are new.
\<close>

theorem process_screenshot_within_bounds:
  assumes "files screenshot_path = Some img"
    and "files new_screenshot_path = None"
    and "crop_name \<noteq> temp_name"
  shows "(\<exists>out_path files'.
            process_screenshot new_screenshot_path files screenshot_path = Inr (out_path, files')
          \<and> files' out_path = Some (processed img)
          \<and> out_path = (if fits img then screenshot_path else new_screenshot_path)
          \<and> (fits img \<longrightarrow> files' = files))
       \<and> (\<exists>out_path files'.
            process_screenshot_bt temp_name crop_name files img = Inr (out_path, files')
          \<and> files' out_path = Some (processed img)
          \<and> out_path = (if fits img then temp_name else crop_name))
       \<and> processed img = (if fits img then img else top_left_crop img)
       \<and> image_width (processed img) \<le> 2048 \<and> image_height (processed img) \<le> 2048
       \<and> image_width (processed img) = min (image_width img) 2048
       \<and> image_height (processed img) = min (image_height img) 2048"
proof -
  have d: "\<exists>out_path files'.
            process_screenshot new_screenshot_path files screenshot_path = Inr (out_path, files')
          \<and> files' out_path = Some (processed img)
          \<and> out_path = (if fits img then screenshot_path else new_screenshot_path)
          \<and> (fits img \<longrightarrow> files' = files)"
    using assms(1,2) by (rule process_screenshot_result)
  have b: "\<exists>out_path files'.
            process_screenshot_bt temp_name crop_name files img = Inr (out_path, files')
          \<and> files' out_path = Some (processed img)
          \<and> out_path = (if fits img then temp_name else crop_name)"
    using assms(3) by (rule process_screenshot_bt_result)
  show ?thesis
    using d b processed_size [of img] by (simp add: processed_def)
qed

lemma wide_not_fits: "\<not> fits wide_image"
  by (simp add: fits_def wide_image_def image_width_def)

lemma small_fits: "fits small_image"
  by (simp add: fits_def small_image_def image_width_def image_height_def)

theorem process_screenshot_within_bounds_witness:
  "one_wide_file ''/tmp/shot.png'' = Some wide_image
   \<and> one_wide_file ''/tmp/crop.png'' = None
   \<and> ''/tmp/crop2.png'' \<noteq> ''/tmp/tmp1.png''
   \<and> \<not> fits wide_image
   \<and> (\<exists>files'. process_screenshot ''/tmp/crop.png'' one_wide_file ''/tmp/shot.png''
          = Inr (''/tmp/crop.png'', files')
        \<and> files' ''/tmp/crop.png'' = Some (top_left_crop wide_image))
   \<and> image_width (top_left_crop wide_image) = 2048
   \<and> image_height (top_left_crop wide_image) = 1"
proof -
  have a: "one_wide_file ''/tmp/shot.png'' = Some wide_image"
    and b: "one_wide_file ''/tmp/crop.png'' = None"
    and c: "''/tmp/crop2.png'' \<noteq> ''/tmp/tmp1.png''"
    by (simp_all add: one_wide_file_def)
  have d: "image_width wide_image = 2050" "image_height wide_image = 1"
    by (simp_all add: wide_image_def image_width_def image_height_def)
  show ?thesis
    using a b c wide_not_fits d
      process_screenshot_within_bounds [where files = one_wide_file
        and screenshot_path = "''/tmp/shot.png''" and img = wide_image
        and new_screenshot_path = "''/tmp/crop.png''"
        and crop_name = "''/tmp/crop2.png''" and temp_name = "''/tmp/tmp1.png''"]
    by (simp add: processed_def)
qed


subsection \<open>The article mapper\<close>




subsection \<open>The destination mapper\<close>











subsection \<open>The retried API call\<close>




lemma retrying_not_covered:
  assumes "fn n = Inl exn" "\<not> retry_on exn"
  shows "retrying retry_on m wait fn n sleeps = (Raised exn, n, sleeps)"
  by (subst retrying.simps) (use assms in simp)

lemma wait_exponential_bounds:
  "2 \<le> wait_exponential 1 2 10 n" "wait_exponential 1 2 10 n \<le> 10"
  by (simp_all add: wait_exponential_def)

lemma first_wait: "wait_exponential 1 2 10 1 = 2"
  by (simp add: wait_exponential_def)













subsection \<open>Validation of the starting city before the remote calls\<close>

lemma invalid_city_aborts:
  assumes "\<not> validate_city (env_city e) (env_geocoder e)"
    and "env_button e \<or> env_city e \<noteq> ''''"
  shows "main e st c
     = ([ErrorMessage ''doesn't appear to be a valid city. Please try again.''], st, c)"
  using assms by (simp add: main_def Let_def)

lemma main_bt_skips_validation:
  "main_bt e st c =
     (let st4 = (if bt_end e \<noteq> end_location_bt st \<or> bt_start e \<noteq> from_location_bt st
                 then st\<lparr>search_button_clicked := False\<rparr> else st)
                \<lparr>from_location_bt := bt_start e, end_location_bt := bt_end e\<rparr>
      in if bt_button e \<or> search_button_clicked st4 then
           if bt_start e = '''' then ([ErrorMessage ''Please enter starting location.''], st4, c)
           else search_travel_options e (bt_start e) (bt_end e)
                  (st4\<lparr>search_button_clicked := True\<rparr>) c
         else ([], st4, c))"
  by (auto simp: main_bt_def Let_def)

lemma search_travel_options_geocoder:
  "search_travel_options (e\<lparr>bt_geocoder_start := g1, bt_geocoder_end := g2\<rparr>) s t st c
     = search_travel_options e s t st c"
  by (simp add: search_travel_options_def take_screenshot_def
      cong del: sum.case_cong_weak option.case_cong_weak prod.case_cong_weak if_weak_cong)

lemma main_bt_ignores_geocoder:
  "main_bt (e\<lparr>bt_geocoder_start := g1, bt_geocoder_end := g2\<rparr>) st c = main_bt e st c"
  by (simp add: main_bt_skips_validation search_travel_options_geocoder Let_def
      cong del: if_weak_cong)


lemma unknown_city_aborts_daytrip:
  "\<not> validate_city ''Qwxzzznotacity'' no_results
   \<and> main unknown_city_run initial_session_state no_caches
       = ([ErrorMessage ''doesn't appear to be a valid city. Please try again.''],
          initial_session_state, no_caches)"
  by (simp add: validate_city_def no_results_def main_def unknown_city_run_def Let_def)

lemma madrid_proceeds_daytrip:
  "validate_city ''Madrid'' madrid_city
   \<and> fst (main madrid_run initial_session_state no_caches)
       = [SessionCreate, CaptureExplorePage ''wss://browser/1'' ''madrid'',
          ErrorMessage ''Could not get screenshot'']"
  by (simp add: validate_city_def madrid_city_def main_def madrid_run_def Let_def
      initial_session_state_def no_caches_def capture_and_display_def cached_browser_ws_url_def
      cached_capture_explore_page_def py_get_def py_lower_def lower_char_def)


subsection \<open>The page cursor\<close>

lemma number_input_source:
  assumes "number_input min_value max_value v entry = Inr pn"
  shows "pn = v \<or> entry = Entered pn"
  using assms by (cases entry) (auto simp: number_input_def split: if_splits)

lemma number_input_untouched:
  assumes "number_input min_value max_value v Untouched = Inr pn"
  shows "pn = v"
  using assms by (auto simp: number_input_def split: if_splits)

lemma display_state:
  "snd (display_travel_data entry travel_data st) =
     (if travel_data = [] then st
      else if num_pages_of (int (length travel_data)) page_size > 1
      then (case number_input 1 (num_pages_of (int (length travel_data)) page_size)
                   (page_number st) entry of
              Inl exn \<Rightarrow> st
            | Inr pn \<Rightarrow> st\<lparr>page_number := pn\<rparr>)
      else st\<lparr>page_number := 1\<rparr>)"
  by (simp add: display_travel_data_def Let_def split: sum.splits)

lemma display_page_cases:
  assumes "display_travel_data entry travel_data st = (shown, st')"
  shows "page_number st' = page_number st \<or> page_number st' = 1
         \<or> entry = Entered (page_number st')"
proof -
  let ?np = "num_pages_of (int (length travel_data)) page_size"
  have s: "st' = snd (display_travel_data entry travel_data st)" using assms by simp
  show ?thesis
  proof (cases "number_input 1 ?np (page_number st) entry")
    case (Inl exn)
    then show ?thesis unfolding s display_state by simp
  next
    case (Inr pn)
    then show ?thesis using number_input_source [OF Inr] unfolding s display_state by auto
  qed
qed

lemma display_page_lower:
  assumes "display_travel_data entry travel_data st = (shown, st')" "1 \<le> page_number st"
  shows "1 \<le> page_number st'"
proof -
  let ?np = "num_pages_of (int (length travel_data)) page_size"
  have s: "st' = snd (display_travel_data entry travel_data st)" using assms by simp
  show ?thesis
  proof (cases "number_input 1 ?np (page_number st) entry")
    case (Inl exn)
    then show ?thesis using assms(2) unfolding s display_state by simp
  next
    case (Inr pn)
    then show ?thesis using number_input_returns [OF Inr] assms(2)
      unfolding s display_state by auto
  qed
qed

lemma display_page_untouched:
  assumes "display_travel_data Untouched travel_data st = (shown, st')" "page_number st = 1"
  shows "page_number st' = 1"
proof -
  let ?np = "num_pages_of (int (length travel_data)) page_size"
  have s: "st' = snd (display_travel_data Untouched travel_data st)" using assms by simp
  show ?thesis
  proof (cases "number_input 1 ?np (page_number st) Untouched")
    case (Inl exn)
    then show ?thesis using assms(2) unfolding s display_state by simp
  next
    case (Inr pn)
    then show ?thesis using number_input_untouched [OF Inr] assms(2)
      unfolding s display_state by auto
  qed
qed

lemma cached_extract_shape:
  assumes "cached_extract_travel_data e image_path st c = (r, st1, c1, evs)"
  shows "(evs = [] \<and> st1 = st)
       \<or> (evs = [ExtractTravelData image_path] \<and> st1 = st\<lparr>page_number := 1\<rparr>)"
  using assms
  by (auto simp: cached_extract_travel_data_def split: option.splits sum.splits)

lemma cached_capture_shape:
  assumes "cached_capture_explore_page e ws loc st c = (r, st1, c1, evs)"
  shows "(evs = [] \<and> st1 = st)
       \<or> (evs = [CaptureExplorePage ws loc] \<and> st1 = st\<lparr>page_number := 1\<rparr>)"
  using assms
  by (auto simp: cached_capture_explore_page_def split: option.splits)

lemma cached_browser_shape:
  assumes "cached_browser_ws_url e c = (r, c1, evs)"
  shows "evs = [] \<or> evs = [SessionCreate]"
  using assms
  by (auto simp: cached_browser_ws_url_def split: option.splits sum.splits)

lemma reset_page_append:
  "reset_page (pre0 @ pre) pg = reset_page pre (reset_page pre0 pg)"
  by (simp add: reset_page_def)

lemma run_shape_end:
  assumes "\<not> list_ex is_tabs pre" "page_number st' = reset_page pre pg"
  shows "run_shape entry pg pre st'"
  unfolding run_shape_def using assms by blast

lemma run_shape_tabs:
  assumes "\<not> list_ex is_tabs pre" "page_number st1 = reset_page pre pg"
    and "display_travel_data entry travel_data st1 = (shown, st')"
  shows "run_shape entry pg (pre @ [Tabs travel_data shown]) st'"
  unfolding run_shape_def using assms by blast

lemma run_shape_prepend:
  assumes "run_shape entry (reset_page pre0 pg) evs st'" "\<not> list_ex is_tabs pre0"
  shows "run_shape entry pg (pre0 @ evs) st'"
proof -
  from assms(1) obtain pre where
    p: "\<not> list_ex is_tabs pre"
    and d: "(evs = pre \<and> page_number st' = reset_page pre (reset_page pre0 pg))
         \<or> (\<exists>travel_data shown st1.
               evs = pre @ [Tabs travel_data shown]
             \<and> page_number st1 = reset_page pre (reset_page pre0 pg)
             \<and> display_travel_data entry travel_data st1 = (shown, st'))"
    unfolding run_shape_def by blast
  have q: "\<not> list_ex is_tabs (pre0 @ pre)" using p assms(2) by simp
  from d show ?thesis
  proof
    assume "evs = pre \<and> page_number st' = reset_page pre (reset_page pre0 pg)"
    then show ?thesis
      using run_shape_end [OF q, of st' pg entry] by (simp add: reset_page_append)
  next
    assume "\<exists>travel_data shown st1.
               evs = pre @ [Tabs travel_data shown]
             \<and> page_number st1 = reset_page pre (reset_page pre0 pg)
             \<and> display_travel_data entry travel_data st1 = (shown, st')"
    then obtain travel_data shown st1 where
      e: "evs = pre @ [Tabs travel_data shown]"
      and s: "page_number st1 = reset_page pre (reset_page pre0 pg)"
      and t: "display_travel_data entry travel_data st1 = (shown, st')"
      by blast
    have "run_shape entry pg ((pre0 @ pre) @ [Tabs travel_data shown]) st'"
      using q _ t by (rule run_shape_tabs) (simp add: s reset_page_append)
    then show ?thesis using e by simp
  qed
qed

lemma extract_and_display_shape:
  assumes "extract_and_display e path st c = (evs, st', c')"
  shows "run_shape (env_page_entry e) (page_number st) evs st'"
proof -
  obtain r st1 c1 evs0 where x: "cached_extract_travel_data e path st c = (r, st1, c1, evs0)"
    by (cases "cached_extract_travel_data e path st c") auto
  have nt: "\<not> list_ex is_tabs evs0"
    using cached_extract_shape [OF x] by (auto simp: is_tabs_def)
  have pg1: "page_number st1 = reset_page evs0 (page_number st)"
    using cached_extract_shape [OF x] by (auto simp: reset_page_def replaces_records_def)
  show ?thesis
  proof (cases r)
    case (Inl exn)
    then have r: "evs = evs0 @ [Uncaught exn]" "st' = st1"
      using assms x by (simp_all add: extract_and_display_def)
    have "\<not> list_ex is_tabs (evs0 @ [Uncaught exn])" using nt by (simp add: is_tabs_def)
    moreover have "page_number st1 = reset_page (evs0 @ [Uncaught exn]) (page_number st)"
      using pg1 by (simp add: reset_page_def replaces_records_def)
    ultimately show ?thesis unfolding r by (rule run_shape_end)
  next
    case (Inr v)
    show ?thesis
    proof (cases v)
      case None
      then have r: "evs = evs0 @ [ErrorMessage ''Could not get travel data'']" "st' = st1"
        using assms x Inr by (simp_all add: extract_and_display_def)
      have "\<not> list_ex is_tabs (evs0 @ [ErrorMessage ''Could not get travel data''])"
        using nt by (simp add: is_tabs_def)
      moreover have "page_number st1
          = reset_page (evs0 @ [ErrorMessage ''Could not get travel data'']) (page_number st)"
        using pg1 by (simp add: reset_page_def replaces_records_def)
      ultimately show ?thesis unfolding r by (rule run_shape_end)
    next
      case (Some travel_data)
      obtain shown st2 where
        d: "display_travel_data (env_page_entry e) travel_data st1 = (shown, st2)"
        by (cases "display_travel_data (env_page_entry e) travel_data st1") auto
      have r: "evs = evs0 @ [Tabs travel_data shown]" "st' = st2"
        using assms x Inr Some d by (simp_all add: extract_and_display_def)
      show ?thesis unfolding r using nt pg1 d by (rule run_shape_tabs)
    qed
  qed
qed

lemma capture_and_display_shape:
  assumes "capture_and_display e loc st c = (evs, st', c')"
  shows "run_shape (env_page_entry e) (page_number st) evs st'"
proof -
  obtain r0 c1 evs1 where b: "cached_browser_ws_url e c = (r0, c1, evs1)"
    by (cases "cached_browser_ws_url e c") auto
  have nt1: "\<not> list_ex is_tabs evs1"
    using cached_browser_shape [OF b] by (auto simp: is_tabs_def)
  have keep1: "reset_page evs1 (page_number st) = page_number st"
    using cached_browser_shape [OF b] by (auto simp: reset_page_def replaces_records_def)
  show ?thesis
  proof (cases r0)
    case (Inl exn)
    then have r: "evs = evs1 @ [ErrorMessage ''An error occurred'']" "st' = st"
      using assms b by (simp_all add: capture_and_display_def)
    have "\<not> list_ex is_tabs (evs1 @ [ErrorMessage ''An error occurred''])"
      using nt1 by (simp add: is_tabs_def)
    moreover have "page_number st
        = reset_page (evs1 @ [ErrorMessage ''An error occurred'']) (page_number st)"
      using keep1 by (simp add: reset_page_def replaces_records_def)
    ultimately show ?thesis unfolding r by (rule run_shape_end)
  next
    case (Inr session)
    obtain session_id browser_ws_url where s: "session = (session_id, browser_ws_url)"
      by (cases session) auto
    show ?thesis
    proof (cases "browser_ws_url = ''''")
      case True
      then have r: "evs = evs1 @ [ErrorMessage ''Could not create session'']" "st' = st"
        using assms b Inr s by (simp_all add: capture_and_display_def)
      have "\<not> list_ex is_tabs (evs1 @ [ErrorMessage ''Could not create session''])"
        using nt1 by (simp add: is_tabs_def)
      moreover have "page_number st
          = reset_page (evs1 @ [ErrorMessage ''Could not create session'']) (page_number st)"
        using keep1 by (simp add: reset_page_def replaces_records_def)
      ultimately show ?thesis unfolding r by (rule run_shape_end)
    next
      case False
      obtain shot st2 c2 evs2 where
        k: "cached_capture_explore_page e browser_ws_url (py_lower loc) st c1
              = (shot, st2, c2, evs2)"
        by (cases "cached_capture_explore_page e browser_ws_url (py_lower loc) st c1") auto
      have nt2: "\<not> list_ex is_tabs (evs1 @ evs2)"
        using nt1 cached_capture_shape [OF k] by (auto simp: is_tabs_def)
      have pg2: "page_number st2 = reset_page (evs1 @ evs2) (page_number st)"
        using keep1 cached_capture_shape [OF k]
        by (auto simp: reset_page_def replaces_records_def)
      show ?thesis
      proof (cases shot)
        case None
        then have r: "evs = (evs1 @ evs2) @ [ErrorMessage ''Could not get screenshot'']"
          "st' = st2"
          using assms b Inr s False k by (simp_all add: capture_and_display_def)
        have "\<not> list_ex is_tabs ((evs1 @ evs2) @ [ErrorMessage ''Could not get screenshot''])"
          using nt2 by (simp add: is_tabs_def)
        moreover have "page_number st2
            = reset_page ((evs1 @ evs2) @ [ErrorMessage ''Could not get screenshot''])
                (page_number st)"
          using pg2 by (simp add: reset_page_def replaces_records_def)
        ultimately show ?thesis unfolding r by (rule run_shape_end)
      next
        case (Some screenshot_tmp_path)
        obtain evs3 st3 c3 where
          x: "extract_and_display e screenshot_tmp_path st2 c2 = (evs3, st3, c3)"
          by (cases "extract_and_display e screenshot_tmp_path st2 c2") auto
        have r: "evs = (evs1 @ evs2) @ evs3" "st' = st3"
          using assms b Inr s False k Some x by (simp_all add: capture_and_display_def)
        have "run_shape (env_page_entry e) (reset_page (evs1 @ evs2) (page_number st)) evs3 st3"
          using extract_and_display_shape [OF x] pg2 by simp
        then show ?thesis unfolding r using nt2 by (rule run_shape_prepend)
      qed
    qed
  qed
qed

lemma main_shape:
  assumes "main e st c = (evs, st', c')"
  shows "run_shape (env_page_entry e)
           (if (env_button e \<or> env_city e \<noteq> '''')
               \<and> validate_city (env_city e) (env_geocoder e)
               \<and> env_city e \<noteq> from_location st
            then 1 else page_number st) evs st'"
proof (cases "env_button e \<or> env_city e \<noteq> ''''")
  case False
  then have r: "evs = []" "st' = st" using assms by (simp_all add: main_def Let_def)
  show ?thesis unfolding r using False
    by (intro run_shape_end) (simp_all add: reset_page_def)
next
  case True
  show ?thesis
  proof (cases "validate_city (env_city e) (env_geocoder e)")
    case False
    then have r: "evs = [ErrorMessage ''doesn't appear to be a valid city. Please try again.'']"
      "st' = st"
      using assms True by (simp_all add: main_def Let_def)
    show ?thesis unfolding r using False
      by (intro run_shape_end) (simp_all add: reset_page_def is_tabs_def replaces_records_def)
  next
    case valid: True
    show ?thesis
    proof (cases "env_city e \<noteq> from_location st")
      case True
      let ?st1 = "st\<lparr>from_location := env_city e, page_number := 1,
                      show_atlas_obscura_modal := False, selected_destination := None\<rparr>"
      have "capture_and_display e (env_city e) ?st1 c = (evs, st', c')"
        using assms \<open>env_button e \<or> env_city e \<noteq> ''''\<close> valid True
        by (simp add: main_def Let_def)
      then have "run_shape (env_page_entry e) (page_number ?st1) evs st'"
        by (rule capture_and_display_shape)
      then show ?thesis using \<open>env_button e \<or> env_city e \<noteq> ''''\<close> valid True by simp
    next
      case False
      have "capture_and_display e (env_city e) st c = (evs, st', c')"
        using assms \<open>env_button e \<or> env_city e \<noteq> ''''\<close> valid False
        by (simp add: main_def Let_def)
      then have "run_shape (env_page_entry e) (page_number st) evs st'"
        by (rule capture_and_display_shape)
      then show ?thesis using False by simp
    qed
  qed
qed

lemma tabs_not_in_pre:
  assumes "\<not> list_ex is_tabs pre"
  shows "Tabs travel_data shown \<notin> set pre"
  using assms by (auto simp: list_ex_iff is_tabs_def)

lemma shape_range:
  assumes "run_shape entry pg evs st'" "Tabs travel_data (Displayed p s x items) \<in> set evs"
  shows "page_number st' = p \<and> 1 \<le> p
       \<and> p \<le> num_pages_of (int (length travel_data)) page_size"
proof -
  from assms(1) obtain pre where
    p: "\<not> list_ex is_tabs pre"
    and d: "(evs = pre \<and> page_number st' = reset_page pre pg)
         \<or> (\<exists>td shown st1. evs = pre @ [Tabs td shown]
             \<and> page_number st1 = reset_page pre pg
             \<and> display_travel_data entry td st1 = (shown, st'))"
    unfolding run_shape_def by blast
  note n = tabs_not_in_pre [OF p]
  from d show ?thesis
  proof
    assume "evs = pre \<and> page_number st' = reset_page pre pg"
    then show ?thesis using assms(2) n by simp
  next
    assume "\<exists>td shown st1. evs = pre @ [Tabs td shown]
             \<and> page_number st1 = reset_page pre pg
             \<and> display_travel_data entry td st1 = (shown, st')"
    then obtain td shown st1 where
      e: "evs = pre @ [Tabs td shown]"
      and t: "display_travel_data entry td st1 = (shown, st')"
      by blast
    have "Tabs travel_data (Displayed p s x items) = Tabs td shown"
      using assms(2) n unfolding e by simp
    then have "display_travel_data entry travel_data st1 = (Displayed p s x items, st')"
      using t by simp
    then show ?thesis using display_travel_data_page by blast
  qed
qed

lemma reset_page_cases: "reset_page pre pg = pg \<or> reset_page pre pg = 1"
  by (simp add: reset_page_def)

lemma shape_lower:
  assumes "run_shape entry pg evs st'" "1 \<le> pg"
  shows "1 \<le> page_number st'"
proof -
  from assms(1) obtain pre where
    d: "(evs = pre \<and> page_number st' = reset_page pre pg)
         \<or> (\<exists>td shown st1. evs = pre @ [Tabs td shown]
             \<and> page_number st1 = reset_page pre pg
             \<and> display_travel_data entry td st1 = (shown, st'))"
    unfolding run_shape_def by blast
  have r: "1 \<le> reset_page pre pg" using assms(2) by (simp add: reset_page_def)
  from d show ?thesis
  proof
    assume "evs = pre \<and> page_number st' = reset_page pre pg"
    then show ?thesis using r by simp
  next
    assume "\<exists>td shown st1. evs = pre @ [Tabs td shown]
             \<and> page_number st1 = reset_page pre pg
             \<and> display_travel_data entry td st1 = (shown, st')"
    then obtain td shown st1 where
      e: "evs = pre @ [Tabs td shown]"
      and s: "page_number st1 = reset_page pre pg"
      and t: "display_travel_data entry td st1 = (shown, st')"
      by blast
    show ?thesis using t by (rule display_page_lower) (simp add: s r)
  qed
qed

lemma shape_change:
  assumes "run_shape entry pg evs st'"
  shows "page_number st' = pg \<or> page_number st' = 1 \<or> entry = Entered (page_number st')"
proof -
  from assms(1) obtain pre where
    d: "(evs = pre \<and> page_number st' = reset_page pre pg)
         \<or> (\<exists>td shown st1. evs = pre @ [Tabs td shown]
             \<and> page_number st1 = reset_page pre pg
             \<and> display_travel_data entry td st1 = (shown, st'))"
    unfolding run_shape_def by blast
  from d show ?thesis
  proof
    assume "evs = pre \<and> page_number st' = reset_page pre pg"
    then show ?thesis using reset_page_cases [of pre pg] by auto
  next
    assume "\<exists>td shown st1. evs = pre @ [Tabs td shown]
             \<and> page_number st1 = reset_page pre pg
             \<and> display_travel_data entry td st1 = (shown, st')"
    then obtain td shown st1 where
      e: "evs = pre @ [Tabs td shown]"
      and s: "page_number st1 = reset_page pre pg"
      and t: "display_travel_data entry td st1 = (shown, st')"
      by blast
    show ?thesis
      using display_page_cases [OF t] reset_page_cases [of pre pg] unfolding s by auto
  qed
qed

lemma shape_reset:
  assumes "run_shape Untouched pg evs st'" "pg = 1 \<or> list_ex replaces_records evs"
  shows "page_number st' = 1"
proof -
  from assms(1) obtain pre where
    d: "(evs = pre \<and> page_number st' = reset_page pre pg)
         \<or> (\<exists>td shown st1. evs = pre @ [Tabs td shown]
             \<and> page_number st1 = reset_page pre pg
             \<and> display_travel_data Untouched td st1 = (shown, st'))"
    unfolding run_shape_def by blast
  from d show ?thesis
  proof
    assume a: "evs = pre \<and> page_number st' = reset_page pre pg"
    then show ?thesis using assms(2) by (auto simp: reset_page_def)
  next
    assume "\<exists>td shown st1. evs = pre @ [Tabs td shown]
             \<and> page_number st1 = reset_page pre pg
             \<and> display_travel_data Untouched td st1 = (shown, st')"
    then obtain td shown st1 where
      e: "evs = pre @ [Tabs td shown]"
      and s: "page_number st1 = reset_page pre pg"
      and t: "display_travel_data Untouched td st1 = (shown, st')"
      by blast
    have "reset_page pre pg = 1"
      using assms(2) unfolding e by (auto simp: reset_page_def replaces_records_def)
    then show ?thesis using t s by (intro display_page_untouched [OF t]) simp
  qed
qed

text \<open>
  The page cursor in one run of main of daytrip-planner. If the tabs of a page are shown,
  the cursor is the number of that page and lies in \<open>[1, pageCount]\<close> of the records shown.
  A cursor that is at least 1 stays so. The cursor changes only to the number the user
  entered or to 1. It is 1 at the end of every run in which the user left the page box
  alone and either the validated starting city differs from the stored one or the body of
  the memoised capture or extraction ran.
\<close>

lemma page_cursor_of_a_run:
  assumes "main e st c = (evs, st', c')"
  shows "(\<forall>travel_data p s x items.
            Tabs travel_data (Displayed p s x items) \<in> set evs \<longrightarrow>
            page_number st' = p \<and> 1 \<le> p
            \<and> p \<le> num_pages_of (int (length travel_data)) page_size)
       \<and> (1 \<le> page_number st \<longrightarrow> 1 \<le> page_number st')
       \<and> (page_number st' = page_number st \<or> page_number st' = 1
            \<or> env_page_entry e = Entered (page_number st'))
       \<and> (env_page_entry e = Untouched
            \<and> (list_ex replaces_records evs
                \<or> ((env_button e \<or> env_city e \<noteq> '''')
                    \<and> validate_city (env_city e) (env_geocoder e)
                    \<and> env_city e \<noteq> from_location st)) \<longrightarrow>
            page_number st' = 1)"
proof -
  let ?pg = "if (env_button e \<or> env_city e \<noteq> '''')
               \<and> validate_city (env_city e) (env_geocoder e)
               \<and> env_city e \<noteq> from_location st
            then 1 else page_number st"
  have sh: "run_shape (env_page_entry e) ?pg evs st'"
    using assms by (rule main_shape)
  have 1: "\<forall>travel_data p s x items.
            Tabs travel_data (Displayed p s x items) \<in> set evs \<longrightarrow>
            page_number st' = p \<and> 1 \<le> p
            \<and> p \<le> num_pages_of (int (length travel_data)) page_size"
    using shape_range [OF sh] by blast
  have 2: "1 \<le> page_number st \<longrightarrow> 1 \<le> page_number st'"
  proof
    assume "1 \<le> page_number st"
    then have "1 \<le> ?pg" by simp
    with sh show "1 \<le> page_number st'" by (rule shape_lower)
  qed
  have 3: "page_number st' = page_number st \<or> page_number st' = 1
            \<or> env_page_entry e = Entered (page_number st')"
    using shape_change [OF sh] by (auto split: if_splits)
  have 4: "env_page_entry e = Untouched
            \<and> (list_ex replaces_records evs
                \<or> ((env_button e \<or> env_city e \<noteq> '''')
                    \<and> validate_city (env_city e) (env_geocoder e)
                    \<and> env_city e \<noteq> from_location st)) \<longrightarrow>
            page_number st' = 1"
  proof
    assume h: "env_page_entry e = Untouched
            \<and> (list_ex replaces_records evs
                \<or> ((env_button e \<or> env_city e \<noteq> '''')
                    \<and> validate_city (env_city e) (env_geocoder e)
                    \<and> env_city e \<noteq> from_location st))"
    then have u: "run_shape Untouched ?pg evs st'" using sh by simp
    have "?pg = 1 \<or> list_ex replaces_records evs" using h by auto
    with u show "page_number st' = 1" by (rule shape_reset)
  qed
  show ?thesis using 1 2 3 4 by (intro conjI)
qed

lemma madrid_run_events:
  "fst (main madrid_run session_lisbon_page2 no_caches)
     = [SessionCreate, CaptureExplorePage ''wss://browser/1'' ''madrid'',
        ErrorMessage ''Could not get screenshot'']"
  by (simp add: validate_city_def madrid_city_def main_def madrid_run_def Let_def
      session_lisbon_page2_def no_caches_def capture_and_display_def cached_browser_ws_url_def
      cached_capture_explore_page_def py_get_def py_lower_def lower_char_def)

lemma paging_run_result:
  "main paging_run session_page1 warm_caches
     = ([Tabs seven_destinations (Displayed 2 5 7 [lisbon, lisbon])],
        session_page1\<lparr>page_number := 2\<rparr>, warm_caches)"
  by (simp add: validate_city_def madrid_city_def main_def paging_run_def Let_def
      session_page1_def warm_caches_def capture_and_display_def cached_browser_ws_url_def
      cached_capture_explore_page_def cached_extract_travel_data_def extract_and_display_def
      display_travel_data_def destination_tabs_def seven_destinations_def num_pages_of_def
      page_size_def number_input_def start_idx_of_def end_idx_of_def py_slice_def
      slice_bound_def py_get_def py_lower_def lower_char_def)

lemma page_cursor_of_a_run_example:
  "fst (main madrid_run session_lisbon_page2 no_caches)
     = [SessionCreate, CaptureExplorePage ''wss://browser/1'' ''madrid'',
        ErrorMessage ''Could not get screenshot'']
   \<and> env_page_entry madrid_run = Untouched
   \<and> env_button madrid_run
   \<and> validate_city (env_city madrid_run) (env_geocoder madrid_run)
   \<and> env_city madrid_run \<noteq> from_location session_lisbon_page2
   \<and> page_number session_lisbon_page2 = 2
   \<and> page_number (fst (snd (main madrid_run session_lisbon_page2 no_caches))) = 1
   \<and> main paging_run session_page1 warm_caches
     = ([Tabs seven_destinations (Displayed 2 5 7 [lisbon, lisbon])],
        session_page1\<lparr>page_number := 2\<rparr>, warm_caches)
   \<and> env_page_entry paging_run = Entered 2
   \<and> page_number (session_page1\<lparr>page_number := 2\<rparr>) = 2
   \<and> (2::int) \<le> num_pages_of (int (length seven_destinations)) page_size"
proof -
  have m: "main madrid_run session_lisbon_page2 no_caches
      = (fst (main madrid_run session_lisbon_page2 no_caches),
         fst (snd (main madrid_run session_lisbon_page2 no_caches)),
         snd (snd (main madrid_run session_lisbon_page2 no_caches)))"
    by simp
  have f: "env_page_entry madrid_run = Untouched" "env_button madrid_run"
    "validate_city (env_city madrid_run) (env_geocoder madrid_run)"
    "env_city madrid_run \<noteq> from_location session_lisbon_page2"
    "page_number session_lisbon_page2 = 2"
    by (simp_all add: madrid_run_def session_lisbon_page2_def validate_city_def madrid_city_def
        py_get_def py_lower_def lower_char_def)
  have g: "env_page_entry paging_run = Entered 2"
    "Tabs seven_destinations (Displayed 2 5 7 [lisbon, lisbon])
       \<in> set [Tabs seven_destinations (Displayed 2 5 7 [lisbon, lisbon])]"
    by (simp_all add: paging_run_def)
  from page_cursor_of_a_run [OF m] f
  have r1: "page_number (fst (snd (main madrid_run session_lisbon_page2 no_caches))) = 1"
    by blast
  from page_cursor_of_a_run [OF paging_run_result] g
  have r2: "page_number (session_page1\<lparr>page_number := 2\<rparr>) = 2
      \<and> (2::int) \<le> num_pages_of (int (length seven_destinations)) page_size"
    by blast
  show ?thesis using madrid_run_events f r1 paging_run_result g(1) r2 by (intro conjI) simp_all
qed






end
